theory Spec2Isabelle
  imports Main "HOL-Library.Sublist" "HOL-Library.Char_ord" "HOL-Library.List_Lexorder"
begin

section \<open>Strings: the functions of Go's \<open>strings\<close> package that the program calls\<close>

text \<open>
  A Go string is a sequence of bytes; \<^typ>\<open>string\<close> is a list of 8-bit characters, so the
  model works on the same bytes. Runes matter only where the library decodes them:
  \<open>strings.TrimSpace\<close> removes the runes for which \<open>unicode.IsSpace\<close> holds, and these are
  listed below by their UTF-8 encodings (a valid encoding is unique, and an invalid byte
  decodes to U+FFFD, which is no space).
\<close>

definition quote :: char where
  "quote = CHR 0x22"

definition unicodeSpace :: "string list" where
  "unicodeSpace =
     [[CHR 0x09], [CHR 0x0A], [CHR 0x0B], [CHR 0x0C], [CHR 0x0D], [CHR 0x20],
      [CHR 0xC2, CHR 0x85], [CHR 0xC2, CHR 0xA0],
      [CHR 0xE1, CHR 0x9A, CHR 0x80],
      [CHR 0xE2, CHR 0x80, CHR 0x80], [CHR 0xE2, CHR 0x80, CHR 0x81],
      [CHR 0xE2, CHR 0x80, CHR 0x82], [CHR 0xE2, CHR 0x80, CHR 0x83],
      [CHR 0xE2, CHR 0x80, CHR 0x84], [CHR 0xE2, CHR 0x80, CHR 0x85],
      [CHR 0xE2, CHR 0x80, CHR 0x86], [CHR 0xE2, CHR 0x80, CHR 0x87],
      [CHR 0xE2, CHR 0x80, CHR 0x88], [CHR 0xE2, CHR 0x80, CHR 0x89],
      [CHR 0xE2, CHR 0x80, CHR 0x8A],
      [CHR 0xE2, CHR 0x80, CHR 0xA8], [CHR 0xE2, CHR 0x80, CHR 0xA9],
      [CHR 0xE2, CHR 0x80, CHR 0xAF], [CHR 0xE2, CHR 0x81, CHR 0x9F],
      [CHR 0xE3, CHR 0x80, CHR 0x80]]"

text \<open>
  \<open>trimLeftSeqs ws s\<close> removes from the front of \<open>s\<close>, as long as there is one, a
  non-empty word of \<open>ws\<close>: the loop of \<open>strings.TrimLeftFunc\<close>, one rune at a time.
\<close>

function trimLeftSeqs :: "string list \<Rightarrow> string \<Rightarrow> string" where
  "trimLeftSeqs ws s =
     (case find (\<lambda>w. w \<noteq> [] \<and> prefix w s) ws of
        None \<Rightarrow> s
      | Some w \<Rightarrow> trimLeftSeqs ws (drop (length w) s))"
  by pat_completeness auto
termination
proof (relation "measure (\<lambda>(ws, s). length s)")
  show "wf (measure (\<lambda>(ws, s). length s))" by simp
next
  fix ws :: "string list" and s w :: string
  assume "find (\<lambda>w. w \<noteq> [] \<and> prefix w s) ws = Some w"
  then have "w \<noteq> [] \<and> prefix w s"
    by (auto simp: find_Some_iff)
  then have "length (drop (length w) s) < length s"
    by (auto simp: prefix_def)
  then show "((ws, drop (length w) s), (ws, s)) \<in> measure (\<lambda>(ws, s). length s)"
    by simp
qed

declare trimLeftSeqs.simps [simp del]

text \<open>\<open>strings.TrimSpace(s)\<close>: the leading, then the trailing white space is removed.\<close>

definition TrimSpace :: "string \<Rightarrow> string" where
  "TrimSpace s =
     rev (trimLeftSeqs (map rev unicodeSpace) (rev (trimLeftSeqs unicodeSpace s)))"

text \<open>
  \<open>strings.Trim(s, cutset)\<close> for a cutset of ASCII bytes (the program's only cutset is the
  double quote): the trailing and the leading bytes that are in the cutset are removed.
\<close>

definition Trim :: "string \<Rightarrow> string \<Rightarrow> string" where
  "Trim s cutset =
     dropWhile (\<lambda>c. c \<in> set cutset) (rev (dropWhile (\<lambda>c. c \<in> set cutset) (rev s)))"

text \<open>
  The width of the first rune of a string that is not empty, as \<open>utf8.DecodeRuneInString\<close>
  finds it: 1 for an ASCII byte and for a byte that starts no valid sequence; otherwise the
  length the first byte announces, when the string is that long and the bytes after the
  first are in the ranges the first byte accepts, and 1 when they are not.
\<close>

definition contByte :: "char \<Rightarrow> bool" where
  "contByte c \<longleftrightarrow> (0x80::nat) \<le> of_char c \<and> of_char c \<le> (0xBF::nat)"

definition runeSize :: "string \<Rightarrow> nat" where
  "runeSize s =
     (let b0 = (of_char (hd s) :: nat);
          n = (if b0 < 0xC2 then 1 else if b0 < 0xE0 then 2 else if b0 < 0xF0 then 3
               else if b0 < 0xF5 then 4 else (1::nat));
          lo = (if b0 = 0xE0 then 0xA0 else if b0 = 0xF0 then 0x90 else (0x80::nat));
          hi = (if b0 = 0xED then 0x9F else if b0 = 0xF4 then 0x8F else (0xBF::nat))
      in if n = 1 \<or> length s < n then 1
         else if of_char (s ! 1) < lo \<or> hi < of_char (s ! 1) then 1
         else if n = 2 then 2
         else if \<not> contByte (s ! 2) then 1
         else if n = 3 then 3
         else if \<not> contByte (s ! 3) then 1
         else 4)"

text \<open>\<open>explode(s, -1)\<close> of package \<open>strings\<close>: the string cut after each of its runes.\<close>

function explodeRunes :: "string \<Rightarrow> string list" where
  "explodeRunes s =
     (if s = [] then [] else take (runeSize s) s # explodeRunes (drop (runeSize s) s))"
  by pat_completeness auto
termination
proof (relation "measure length")
  show "wf (measure length)" by simp
next
  fix s :: string
  assume "s \<noteq> []"
  moreover have "0 < runeSize s"
    by (simp add: runeSize_def Let_def)
  ultimately show "(drop (runeSize s) s, s) \<in> measure length"
    by simp
qed

declare explodeRunes.simps [simp del]

text \<open>
  \<open>strings.Split(s, sep)\<close>. For a separator that is not empty, \<open>s\<close> is cut at the leftmost
  occurrences of \<open>sep\<close>, which do not overlap; \<open>cur\<close> is the piece being read, and an
  empty \<open>s\<close> gives one empty piece. For the empty separator \<open>s\<close> is cut after each rune.
\<close>

function Split_from :: "string \<Rightarrow> string \<Rightarrow> string \<Rightarrow> string list" where
  "Split_from sep cur s =
     (if s = [] then [cur]
      else if sep \<noteq> [] \<and> prefix sep s then cur # Split_from sep [] (drop (length sep) s)
      else Split_from sep (cur @ [hd s]) (tl s))"
  by pat_completeness auto
termination
  by (relation "measure (\<lambda>(sep, cur, s). length s)") (auto simp: prefix_def)

declare Split_from.simps [simp del]

definition Split :: "string \<Rightarrow> string \<Rightarrow> string list" where
  "Split s sep = (if sep = [] then explodeRunes s else Split_from sep [] s)"

text \<open>\<open>strings.Join(parts, sep)\<close>, to say what \<open>Split\<close> computes.\<close>

fun Join :: "string list \<Rightarrow> string \<Rightarrow> string" where
  "Join [] sep = []"
| "Join [p] sep = p"
| "Join (p # q # ps) sep = p @ sep @ Join (q # ps) sep"

text \<open>ASCII lower case, byte by byte.\<close>

definition lowerByte :: "char \<Rightarrow> char" where
  "lowerByte c =
     (if CHR ''A'' \<le> c \<and> c \<le> CHR ''Z'' then char_of (of_char c + (32::nat)) else c)"

text \<open>
  \<open>strings.EqualFold(s, "None")\<close>. Unicode simple case folding relates each of the letters
  n, o, e to its ASCII capital only, so the strings that fold to \<open>"None"\<close> are its sixteen
  ASCII spellings.
\<close>

definition EqualFold_None :: "string \<Rightarrow> bool" where
  "EqualFold_None s \<longleftrightarrow> map lowerByte s = ''none''"

section \<open>Errors\<close>

text \<open>
  The \<open>error\<close> values of the program. \<open>Failure n\<close> is an error that comes from outside
  (the file system, a decoder, the database driver), told apart by a number;
  \<open>Wrapped p e\<close> is \<open>fmt.Errorf("p...: %w", e)\<close>; \<open>ErrFieldCount\<close> is the error of that
  name of \<open>encoding/csv\<close> ("wrong number of fields").
\<close>

datatype error =
    Failure nat
  | ErrFieldCount
  | NoRecordsFound
  | UnsupportedFileType
  | Wrapped string error

section \<open>The parsers\<close>

text \<open>
  Each parser opens the file at its path and hands it to a decoder (\<open>encoding/csv\<close>,
  \<open>encoding/json\<close>, \<open>yaml.v3\<close>). The model takes what the two steps give for the path: the
  error of \<open>os.Open\<close>, \<open>os.ReadFile\<close> or of the decoder, or the decoded value. For CSV that
  value is the list of records of \<open>csv.Reader.ReadAll\<close>, each a list of fields.
\<close>

type_synonym csvResult = "error + string list list"

text \<open>
  \<open>csv.Reader.ReadAll\<close> on a reader made by \<open>csv.NewReader\<close> and left as it is, which is how
  both CSV parsers use it: \<open>FieldsPerRecord\<close> is 0, so the number of fields of the first
  record is required of every record after it, and a record with another number of fields
  ends the call with \<open>ErrFieldCount\<close> and no records. \<open>lexed\<close> is the records as the reader
  cuts them from the lines of the file.
\<close>

definition ReadAll :: "string list list \<Rightarrow> csvResult" where
  "ReadAll lexed =
     (case lexed of
        [] \<Rightarrow> Inr []
      | first # rest \<Rightarrow>
          if list_all (\<lambda>rec. length rec = length first) rest then Inr lexed
          else Inl ErrFieldCount)"

text \<open>
  The loop of \<open>ParseCSV\<close>; \<open>i\<close> is the index of the record, \<open>names\<close> the slice built so far.
\<close>

fun ParseCSV_loop :: "nat \<Rightarrow> string list list \<Rightarrow> string list \<Rightarrow> string list" where
  "ParseCSV_loop i [] names = names"
| "ParseCSV_loop i (rec # records) names =
     (if length rec = 0 then ParseCSV_loop (i + 1) records names
      else if i = 0 \<and> (rec ! 0 = ''name'' \<or> rec ! 0 = ''Name'')
        then ParseCSV_loop (i + 1) records names
      else ParseCSV_loop (i + 1) records (names @ [rec ! 0]))"

definition ParseCSV :: "csvResult \<Rightarrow> error + string list" where
  "ParseCSV file =
     (case file of
        Inl err \<Rightarrow> Inl err
      | Inr records \<Rightarrow> Inr (ParseCSV_loop 0 records []))"

text \<open>
  A decoded JSON or YAML document of type \<open>[]map[string]any\<close>: a value is a string or
  something else, an object maps keys to values.
\<close>

datatype anyValue = StringValue string | OtherValue

type_synonym object = "string \<rightharpoonup> anyValue"

type_synonym objectsResult = "error + object list"

text \<open>The loop of \<open>ParseJSON\<close> and of \<open>ParseYAML\<close>: \<open>obj["name"].(string)\<close>.\<close>

fun nameFields :: "object list \<Rightarrow> string list \<Rightarrow> string list" where
  "nameFields [] names = names"
| "nameFields (obj # arr) names =
     (case obj ''name'' of
        Some (StringValue name) \<Rightarrow> nameFields arr (names @ [name])
      | _ \<Rightarrow> nameFields arr names)"

definition ParseJSON :: "objectsResult \<Rightarrow> error + string list" where
  "ParseJSON file =
     (case file of Inl err \<Rightarrow> Inl err | Inr arr \<Rightarrow> Inr (nameFields arr []))"

definition ParseYAML :: "objectsResult \<Rightarrow> error + string list" where
  "ParseYAML file =
     (case file of Inl err \<Rightarrow> Inl err | Inr arr \<Rightarrow> Inr (nameFields arr []))"

record ExerciseUploadRow =
  Name :: string
  Description :: string
  Category :: string
  Equipment :: "string list"
  Types :: "string list"
  Muscles :: "string list"

text \<open>The loop of \<open>SplitAndTrim\<close>; \<open>out\<close> is the slice built so far.\<close>

fun SplitAndTrim_loop :: "string list \<Rightarrow> string list \<Rightarrow> string list" where
  "SplitAndTrim_loop [] out = out"
| "SplitAndTrim_loop (p # parts) out =
     (let p' = TrimSpace (Trim p [quote])
      in if p' \<noteq> [] then SplitAndTrim_loop parts (out @ [p'])
         else SplitAndTrim_loop parts out)"

definition SplitAndTrim :: "string \<Rightarrow> string \<Rightarrow> string list" where
  "SplitAndTrim s sep = SplitAndTrim_loop (Split s sep) []"

text \<open>The row built from a record of at least six fields.\<close>

definition uploadRow :: "string list \<Rightarrow> ExerciseUploadRow" where
  "uploadRow rec =
     \<lparr>Name = TrimSpace (rec ! 0),
      Description = TrimSpace (rec ! 1),
      Category = TrimSpace (rec ! 2),
      Equipment = SplitAndTrim (rec ! 3) '';'',
      Types = SplitAndTrim (rec ! 4) '';'',
      Muscles = SplitAndTrim (rec ! 5) '';''\<rparr>"

text \<open>The loop of \<open>ParseExercisesCSV\<close>; \<open>i\<close> is the index of the record.\<close>

fun ParseExercisesCSV_loop ::
  "nat \<Rightarrow> string list list \<Rightarrow> ExerciseUploadRow list \<Rightarrow> ExerciseUploadRow list" where
  "ParseExercisesCSV_loop i [] rows = rows"
| "ParseExercisesCSV_loop i (rec # records) rows =
     (if i = 0 then ParseExercisesCSV_loop (i + 1) records rows
      else if length rec < 6 then ParseExercisesCSV_loop (i + 1) records rows
      else ParseExercisesCSV_loop (i + 1) records (rows @ [uploadRow rec]))"

definition ParseExercisesCSV :: "csvResult \<Rightarrow> error + ExerciseUploadRow list" where
  "ParseExercisesCSV file =
     (case file of
        Inl err \<Rightarrow> Inl err
      | Inr records \<Rightarrow>
          if length records < 1 then Inl NoRecordsFound
          else Inr (ParseExercisesCSV_loop 0 records []))"

section \<open>The database\<close>

text \<open>
  The four name tables and the three junction tables that the SQL of the program names.
\<close>

datatype nameTable = muscle_group | training_type | exercise_category | equipment

datatype junction = exercise_equipment | exercise_training_types | exercise_muscles

record exerciseRecord =
  exercise_id :: nat
  exercise_name :: string
  exercise_description :: string
  exercise_category_id :: nat

text \<open>
  Modelled from the spec: the schema is not in the repository. A name table holds rows
  (id, name) with a unique name and a surrogate id given on first insert; the exercise
  table has a unique name; a junction table holds pairs of ids, each pair once.
\<close>

record store =
  nameRows :: "nameTable \<Rightarrow> (nat \<times> string) list"
  exercises :: "exerciseRecord list"
  links :: "junction \<Rightarrow> (nat \<times> nat) list"

text \<open>
  The text of a statement the program passes to \<open>db.Exec\<close> as \<open>query\<close>:
  \<open>InsertNameQuery t\<close> is
  \<open>INSERT INTO t (name) VALUES ($1) ON CONFLICT (name) DO NOTHING\<close>, and \<open>EmptyQuery\<close> is
  the zero value \<open>""\<close> of a \<open>query\<close> variable that no case of the menu has set.
\<close>

datatype query = EmptyQuery | InsertNameQuery nameTable

definition InsertMuscleGroupQuery :: query where
  "InsertMuscleGroupQuery = InsertNameQuery muscle_group"

definition InsertTrainingTypeQuery :: query where
  "InsertTrainingTypeQuery = InsertNameQuery training_type"

definition InsertCategoryQuery :: query where
  "InsertCategoryQuery = InsertNameQuery exercise_category"

definition InsertEquipmentQuery :: query where
  "InsertEquipmentQuery = InsertNameQuery equipment"

text \<open>
  The statements the program sends, with their arguments:
  \<^item> \<open>ExecQuery q name\<close>: \<open>db.Exec(q, name)\<close>;
  \<^item> \<open>CountRows t\<close>: \<open>SELECT COUNT(*) FROM t\<close>;
  \<^item> \<open>UpsertName t name\<close>:
    \<open>INSERT INTO t (name) VALUES ($1) ON CONFLICT (name) DO UPDATE SET name=EXCLUDED.name RETURNING id\<close>;
  \<^item> \<open>UpsertExercise name description category\<close>:
    \<open>INSERT INTO exercise (name, description, category_id) VALUES ($1, $2, $3)
    ON CONFLICT (name) DO UPDATE SET description=EXCLUDED.description RETURNING id\<close>;
  \<^item> \<open>InsertLink j a b\<close>: \<open>INSERT INTO j (exercise_id, ...) VALUES ($1, $2) ON CONFLICT DO NOTHING\<close>.
\<close>

datatype statement =
    ExecQuery query string
  | CountRows string
  | UpsertName nameTable string
  | UpsertExercise string string nat
  | InsertLink junction nat nat

datatype call = CallBegin | CallStatement statement | CallCommit | CallRollback

text \<open>
  What stands behind \<open>*sql.DB\<close>: the committed rows, the calls received so far, and the
  environment's choice of the calls that fail (a lost connection, a rejected statement, a
  value \<open>Scan\<close> cannot convert): the call number \<open>n\<close> fails with \<open>e\<close> when
  \<open>faults n = Some e\<close>.
\<close>

record database =
  committed :: store
  calls :: "call list"
  faults :: "nat \<Rightarrow> error option"

text \<open>An open transaction \<open>*sql.Tx\<close>: its connection and the rows as the transaction sees them.\<close>

record tx =
  conn :: database
  work :: store

subsection \<open>What the statements do to the rows\<close>

text \<open>
  Modelled from the spec: the server is not part of the repository. The effect of each
  statement is read from its SQL text and from the unique keys of the spec's data model:
  an insert whose name (or pair) is there already changes no row, or only the description
  of the exercise; a new row gets an id above those of the table.
\<close>

definition freshId :: "nat list \<Rightarrow> nat" where
  "freshId ids = Suc (fold max ids 0)"

definition insertNameIgnore :: "string \<Rightarrow> (nat \<times> string) list \<Rightarrow> (nat \<times> string) list" where
  "insertNameIgnore name rows =
     (if name \<in> snd ` set rows then rows else rows @ [(freshId (map fst rows), name)])"

definition runQuery :: "query \<Rightarrow> string \<Rightarrow> store \<Rightarrow> store" where
  "runQuery q name s =
     (case q of
        EmptyQuery \<Rightarrow> s
      | InsertNameQuery t \<Rightarrow> s\<lparr>nameRows := (nameRows s)(t := insertNameIgnore name (nameRows s t))\<rparr>)"

definition upsertName :: "nameTable \<Rightarrow> string \<Rightarrow> store \<Rightarrow> nat \<times> store" where
  "upsertName t name s =
     (case find (\<lambda>r. snd r = name) (nameRows s t) of
        Some r \<Rightarrow> (fst r, s)
      | None \<Rightarrow>
          (let i = freshId (map fst (nameRows s t))
           in (i, s\<lparr>nameRows := (nameRows s)(t := nameRows s t @ [(i, name)])\<rparr>)))"

definition upsertExercise :: "string \<Rightarrow> string \<Rightarrow> nat \<Rightarrow> store \<Rightarrow> nat \<times> store" where
  "upsertExercise name description category s =
     (case find (\<lambda>r. exercise_name r = name) (exercises s) of
        Some r \<Rightarrow>
          (exercise_id r,
           s\<lparr>exercises :=
               map (\<lambda>x. if exercise_name x = name
                         then x\<lparr>exercise_description := description\<rparr> else x)
                 (exercises s)\<rparr>)
      | None \<Rightarrow>
          (let i = freshId (map exercise_id (exercises s))
           in (i, s\<lparr>exercises := exercises s @
                 [\<lparr>exercise_id = i, exercise_name = name,
                   exercise_description = description,
                   exercise_category_id = category\<rparr>]\<rparr>)))"

definition insertLink :: "junction \<Rightarrow> nat \<Rightarrow> nat \<Rightarrow> store \<Rightarrow> store" where
  "insertLink j a b s =
     (if (a, b) \<in> set (links s j) then s
      else s\<lparr>links := (links s)(j := links s j @ [(a, b)])\<rparr>)"

definition countRows :: "string \<Rightarrow> store \<Rightarrow> nat option" where
  "countRows t s =
     (if t = ''muscle_group'' then Some (length (nameRows s muscle_group))
      else if t = ''training_type'' then Some (length (nameRows s training_type))
      else if t = ''exercise_category'' then Some (length (nameRows s exercise_category))
      else if t = ''equipment'' then Some (length (nameRows s equipment))
      else if t = ''exercise'' then Some (length (exercises s))
      else if t = ''exercise_equipment'' then Some (length (links s exercise_equipment))
      else if t = ''exercise_training_types''
        then Some (length (links s exercise_training_types))
      else if t = ''exercise_muscles'' then Some (length (links s exercise_muscles))
      else None)"

subsection \<open>The calls on \<open>*sql.DB\<close> and \<open>*sql.Tx\<close>\<close>

definition received :: "call \<Rightarrow> database \<Rightarrow> database" where
  "received c db = db\<lparr>calls := calls db @ [c]\<rparr>"

definition nextFault :: "database \<Rightarrow> error option" where
  "nextFault db = faults db (length (calls db))"

text \<open>\<open>db.Exec(query, name)\<close>: outside a transaction the statement is committed at once.\<close>

definition Exec :: "database \<Rightarrow> query \<Rightarrow> string \<Rightarrow> error option \<times> database" where
  "Exec db q name =
     (case nextFault db of
        Some err \<Rightarrow> (Some err, received (CallStatement (ExecQuery q name)) db)
      | None \<Rightarrow>
          (None, received (CallStatement (ExecQuery q name))
                   (db\<lparr>committed := runQuery q name (committed db)\<rparr>)))"

text \<open>
  \<open>db.QueryRow("SELECT COUNT(*) FROM " + table).Scan(&count)\<close>: the error, or the value
  \<open>Scan\<close> stores. A table the store does not have is an error of the statement.
\<close>

definition QueryRowCount :: "database \<Rightarrow> string \<Rightarrow> (error + int) \<times> database" where
  "QueryRowCount db t =
     (case nextFault db of
        Some err \<Rightarrow> (Inl err, received (CallStatement (CountRows t)) db)
      | None \<Rightarrow>
          (case countRows t (committed db) of
             None \<Rightarrow> (Inl (Failure 0), received (CallStatement (CountRows t)) db)
           | Some n \<Rightarrow> (Inr (int n), received (CallStatement (CountRows t)) db)))"

text \<open>\<open>db.Begin()\<close>.\<close>

definition Begin :: "database \<Rightarrow> (error \<times> database) + tx" where
  "Begin db =
     (case nextFault db of
        Some err \<Rightarrow> Inl (err, received CallBegin db)
      | None \<Rightarrow> Inr \<lparr>conn = received CallBegin db, work = committed db\<rparr>)"

text \<open>
  \<open>tx.QueryRow(...).Scan(&id)\<close> for the two statements that return an id, and \<open>tx.Exec\<close>
  for the junction insert: a call that fails leaves the rows of the transaction as they
  were.
\<close>

definition txQueryRowId :: "tx \<Rightarrow> statement \<Rightarrow> (error + nat) \<times> tx" where
  "txQueryRowId t st =
     (let t' = t\<lparr>conn := received (CallStatement st) (conn t)\<rparr>
      in case nextFault (conn t) of
           Some err \<Rightarrow> (Inl err, t')
         | None \<Rightarrow>
             (case st of
                UpsertName tab name \<Rightarrow>
                  (let (i, s) = upsertName tab name (work t) in (Inr i, t'\<lparr>work := s\<rparr>))
              | UpsertExercise name description category \<Rightarrow>
                  (let (i, s) = upsertExercise name description category (work t)
                   in (Inr i, t'\<lparr>work := s\<rparr>))
              | _ \<Rightarrow> (Inl (Failure 0), t')))"

definition txExec :: "tx \<Rightarrow> statement \<Rightarrow> error option \<times> tx" where
  "txExec t st =
     (let t' = t\<lparr>conn := received (CallStatement st) (conn t)\<rparr>
      in case nextFault (conn t) of
           Some err \<Rightarrow> (Some err, t')
         | None \<Rightarrow>
             (case st of
                InsertLink j a b \<Rightarrow> (None, t'\<lparr>work := insertLink j a b (work t)\<rparr>)
              | _ \<Rightarrow> (Some (Failure 0), t')))"

text \<open>
  \<open>tx.Commit()\<close> makes the rows of the transaction the committed rows, unless the call
  itself fails; \<open>tx.Rollback()\<close> drops them. A server that refuses to commit a
  transaction in which a statement has failed (PostgreSQL does, after an error it raised
  itself) is an environment in which that \<open>Commit\<close> call fails. The program drops the
  result of both calls.
\<close>

definition Commit :: "tx \<Rightarrow> error option \<times> database" where
  "Commit t =
     (case nextFault (conn t) of
        Some err \<Rightarrow> (Some err, received CallCommit (conn t))
      | None \<Rightarrow> (None, received CallCommit ((conn t)\<lparr>committed := work t\<rparr>)))"

definition Rollback :: "tx \<Rightarrow> error option \<times> database" where
  "Rollback t = (nextFault (conn t), received CallRollback (conn t))"

section \<open>The repository layer\<close>

text \<open>\<open>InsertNamesToDB\<close>: one \<open>db.Exec\<close> for each name, returning at the first error.\<close>

fun InsertNamesToDB :: "database \<Rightarrow> query \<Rightarrow> string list \<Rightarrow> error option \<times> database" where
  "InsertNamesToDB db q [] = (None, db)"
| "InsertNamesToDB db q (name # names) =
     (case Exec db q name of
        (Some err, db') \<Rightarrow> (Some err, db')
      | (None, db') \<Rightarrow> InsertNamesToDB db' q names)"

text \<open>
  \<open>GetTableCount\<close>: \<open>count\<close> starts as 0, \<open>Scan\<close> stores into it only when the query
  worked, and the error is dropped.
\<close>

definition GetTableCount :: "database \<Rightarrow> string \<Rightarrow> int \<times> database" where
  "GetTableCount db t =
     (let count = 0 in
      case QueryRowCount db t of
        (Inl err, db') \<Rightarrow> (count, db')
      | (Inr n, db') \<Rightarrow> (n, db'))"

definition GetOrInsertCategory :: "tx \<Rightarrow> string \<Rightarrow> (error + nat) \<times> tx" where
  "GetOrInsertCategory t name = txQueryRowId t (UpsertName exercise_category name)"

definition GetOrInsertEquipment :: "tx \<Rightarrow> string \<Rightarrow> (error + nat) \<times> tx" where
  "GetOrInsertEquipment t name = txQueryRowId t (UpsertName equipment name)"

definition GetOrInsertType :: "tx \<Rightarrow> string \<Rightarrow> (error + nat) \<times> tx" where
  "GetOrInsertType t name = txQueryRowId t (UpsertName training_type name)"

definition GetOrInsertMuscle :: "tx \<Rightarrow> string \<Rightarrow> (error + nat) \<times> tx" where
  "GetOrInsertMuscle t name = txQueryRowId t (UpsertName muscle_group name)"

text \<open>
  The three inner loops of \<open>InsertExercises\<close>, each returning at the first error with the
  transaction as it is then.
\<close>

fun equipmentLoop :: "tx \<Rightarrow> nat \<Rightarrow> string list \<Rightarrow> error option \<times> tx" where
  "equipmentLoop t exID [] = (None, t)"
| "equipmentLoop t exID (e0 # es) =
     (let e = TrimSpace e0 in
      if e = [] \<or> EqualFold_None e then equipmentLoop t exID es
      else
        case GetOrInsertEquipment t e of
          (Inl err, t1) \<Rightarrow> (Some (Wrapped ''equipment'' err), t1)
        | (Inr equipID, t1) \<Rightarrow>
            (case txExec t1 (InsertLink exercise_equipment exID equipID) of
               (Some err, t2) \<Rightarrow> (Some (Wrapped ''insert equipment junction'' err), t2)
             | (None, t2) \<Rightarrow> equipmentLoop t2 exID es))"

fun typesLoop :: "tx \<Rightarrow> nat \<Rightarrow> string list \<Rightarrow> error option \<times> tx" where
  "typesLoop t exID [] = (None, t)"
| "typesLoop t exID (ty # tys) =
     (case GetOrInsertType t ty of
        (Inl err, t1) \<Rightarrow> (Some (Wrapped ''type'' err), t1)
      | (Inr typeID, t1) \<Rightarrow>
          (case txExec t1 (InsertLink exercise_training_types exID typeID) of
             (Some err, t2) \<Rightarrow> (Some (Wrapped ''insert type junction'' err), t2)
           | (None, t2) \<Rightarrow> typesLoop t2 exID tys))"

fun musclesLoop :: "tx \<Rightarrow> nat \<Rightarrow> string list \<Rightarrow> error option \<times> tx" where
  "musclesLoop t exID [] = (None, t)"
| "musclesLoop t exID (m # ms) =
     (case GetOrInsertMuscle t m of
        (Inl err, t1) \<Rightarrow> (Some (Wrapped ''muscle'' err), t1)
      | (Inr muscleID, t1) \<Rightarrow>
          (case txExec t1 (InsertLink exercise_muscles exID muscleID) of
             (Some err, t2) \<Rightarrow> (Some (Wrapped ''insert muscle junction'' err), t2)
           | (None, t2) \<Rightarrow> musclesLoop t2 exID ms))"

text \<open>The body of the loop over the rows, for one row.\<close>

definition insertRow :: "tx \<Rightarrow> ExerciseUploadRow \<Rightarrow> error option \<times> tx" where
  "insertRow t row =
     (case GetOrInsertCategory t (Category row) of
        (Inl err, t1) \<Rightarrow> (Some (Wrapped ''category'' err), t1)
      | (Inr catID, t1) \<Rightarrow>
          (case txQueryRowId t1 (UpsertExercise (Name row) (Description row) catID) of
             (Inl err, t2) \<Rightarrow> (Some (Wrapped ''insert exercise'' err), t2)
           | (Inr exID, t2) \<Rightarrow>
               (case equipmentLoop t2 exID (Equipment row) of
                  (Some err, t3) \<Rightarrow> (Some err, t3)
                | (None, t3) \<Rightarrow>
                    (case typesLoop t3 exID (Types row) of
                       (Some err, t4) \<Rightarrow> (Some err, t4)
                     | (None, t4) \<Rightarrow> musclesLoop t4 exID (Muscles row)))))"

fun rowsLoop :: "tx \<Rightarrow> ExerciseUploadRow list \<Rightarrow> error option \<times> tx" where
  "rowsLoop t [] = (None, t)"
| "rowsLoop t (row # rows) =
     (case insertRow t row of
        (Some err, t') \<Rightarrow> (Some err, t')
      | (None, t') \<Rightarrow> rowsLoop t' rows)"

text \<open>
  \<open>InsertExercises\<close>. The deferred function reads the variable \<open>err\<close> of the function's
  own scope, which \<open>tx, err := db.Begin()\<close> declares; past the first \<open>if\<close> it is \<open>nil\<close>.
  Inside the loop \<open>catID, err := ...\<close> declares another \<open>err\<close>, the one every later
  assignment and test of the loop body uses, and the result of the function has no name,
  so no \<open>return\<close> stores into the outer variable. \<open>err\<close> below is that outer variable as
  the deferred function finds it; \<open>result\<close> is the value returned.
\<close>

definition InsertExercises ::
  "database \<Rightarrow> ExerciseUploadRow list \<Rightarrow> error option \<times> database" where
  "InsertExercises db rows =
     (case Begin db of
        Inl (e, db') \<Rightarrow> (Some e, db')
      | Inr t \<Rightarrow>
          (let err = (None :: error option);
               (result, t') = rowsLoop t rows
           in (result, if err \<noteq> None then snd (Rollback t') else snd (Commit t'))))"

section \<open>File names\<close>

text \<open>
  \<open>filepath.Ext(path)\<close>: the suffix that starts at the last dot of the last element of the
  path, found by reading the path backwards up to a slash. \<open>rs\<close> is what is still to be
  read, reversed, and \<open>seen\<close> what has been read.
\<close>

fun Ext_from :: "string \<Rightarrow> string \<Rightarrow> string" where
  "Ext_from [] seen = []"
| "Ext_from (c # rs) seen =
     (if c = CHR ''/'' then []
      else if c = CHR ''.'' then c # seen
      else Ext_from rs (c # seen))"

definition Ext :: "string \<Rightarrow> string" where
  "Ext path = Ext_from (rev path) []"

text \<open>
  \<open>filepath.Clean\<close> on a system whose separator is the slash, by path elements: empty
  elements and \<open>.\<close> are dropped, \<open>..\<close> removes the element before it when there is one
  that is not itself \<open>..\<close>, and is otherwise kept (dropped when the path is rooted).
\<close>

fun Clean_elems :: "bool \<Rightarrow> string list \<Rightarrow> string list \<Rightarrow> string list" where
  "Clean_elems rooted [] out = out"
| "Clean_elems rooted (e # es) out =
     (if e = [] \<or> e = ''.'' then Clean_elems rooted es out
      else if e = ''..'' then
        (if out \<noteq> [] \<and> last out \<noteq> ''..'' then Clean_elems rooted es (butlast out)
         else if \<not> rooted then Clean_elems rooted es (out @ [''..''])
         else Clean_elems rooted es out)
      else Clean_elems rooted es (out @ [e]))"

definition Clean :: "string \<Rightarrow> string" where
  "Clean path =
     (if path = [] then ''.''
      else
        let rooted = (hd path = CHR ''/'');
            out = Clean_elems rooted (Split path ''/'') []
        in if rooted then ''/'' @ Join out ''/''
           else if out = [] then ''.''
           else Join out ''/'')"

text \<open>\<open>filepath.Join(a, b)\<close>.\<close>

definition filepath_Join :: "string \<Rightarrow> string \<Rightarrow> string" where
  "filepath_Join a b =
     (if a \<noteq> [] then Clean (a @ ''/'' @ b)
      else if b \<noteq> [] then Clean b
      else [])"

text \<open>
  The test \<open>strings.ToLower(filepath.Ext(name)) == ext\<close> for one of the four ASCII
  extensions. \<open>strings.ToLower\<close> maps no rune outside ASCII to one of their letters, so the
  test is the one on the bytes in ASCII lower case.
\<close>

definition lowerExt :: "string \<Rightarrow> string" where
  "lowerExt path = map lowerByte (Ext path)"

section \<open>The menu\<close>

datatype appState = stateMenu | stateFileSelector | stateResult

text \<open>
  \<open>resultMsg\<close> is a string built by \<open>fmt.Sprintf\<close>; the model keeps which format it was
  built from and the value printed into it: \<open>NoText\<close> is \<open>""\<close>, \<open>UploadedEntries n\<close> is
  \<open>"Successfully uploaded n entries!..."\<close>, and so on.
\<close>

datatype resultText =
    NoText
  | ErrorReadingDir error
  | ErrorParsingFile error
  | ErrorParsingExercises error
  | DatabaseError error
  | UploadedExercises nat
  | UploadedEntries nat

text \<open>The fields of \<open>model\<close> but \<open>db\<close>, the handle of the database, which \<open>world\<close> holds.\<close>

record model =
  state :: appState
  menuChoice :: int
  fileList :: "string list"
  fileChoice :: int
  selectedFile :: string
  resultMsg :: resultText
  isError :: bool
  counts :: "int list"

text \<open>
  What the program reads and writes outside its memory: the database, the entries of the
  data directory as \<open>os.ReadDir\<close> gives them (name and \<open>IsDir\<close>), and what opening and
  decoding the file at a path gives for each of the three decoders.
\<close>

record world =
  sqlDB :: database
  dataDir :: "error + (string \<times> bool) list"
  csvFiles :: "string \<Rightarrow> csvResult"
  jsonFiles :: "string \<Rightarrow> objectsResult"
  yamlFiles :: "string \<Rightarrow> objectsResult"

text \<open>A message of the terminal library: a key press, by \<open>key.String()\<close>, or anything else.\<close>

datatype Msg = KeyMsg string | OtherMsg

datatype Cmd = Quit

datatype panic = IndexOutOfRange

definition menuOptions :: "string list" where
  "menuOptions =
     [''Upload Muscle Groups'', ''Upload Exercise Types'', ''Upload Exercise Categories'',
      ''Upload Equipment'', ''Upload Exercises'', ''Quit'']"

text \<open>\<open>xs[i]\<close> on a slice: a panic when the index is out of range.\<close>

definition index :: "'a list \<Rightarrow> int \<Rightarrow> panic + 'a" where
  "index xs i =
     (if 0 \<le> i \<and> i < int (length xs) then Inr (xs ! nat i) else Inl IndexOutOfRange)"

text \<open>\<open>refreshCounts\<close>: five counts, read one after the other.\<close>

definition refreshCounts :: "model \<Rightarrow> world \<Rightarrow> model \<times> world" where
  "refreshCounts m w =
     (let (c0, d0) = GetTableCount (sqlDB w) ''muscle_group'';
          (c1, d1) = GetTableCount d0 ''training_type'';
          (c2, d2) = GetTableCount d1 ''exercise_category'';
          (c3, d3) = GetTableCount d2 ''equipment'';
          (c4, d4) = GetTableCount d3 ''exercise''
      in (m\<lparr>counts := [c0, c1, c2, c3, c4]\<rparr>, w\<lparr>sqlDB := d4\<rparr>))"

definition initialModel :: "world \<Rightarrow> model \<times> world" where
  "initialModel w =
     refreshCounts
       \<lparr>state = stateMenu, menuChoice = 0, fileList = [], fileChoice = 0,
        selectedFile = [], resultMsg = NoText, isError = False, counts = []\<rparr> w"

text \<open>\<open>listDataFiles\<close>: the names of the entries that are no directories and have a supported
  extension, sorted.\<close>

definition supportedExts :: "string \<Rightarrow> bool" where
  "supportedExts ext \<longleftrightarrow> ext \<in> set [''.csv'', ''.json'', ''.yaml'', ''.yml'']"

fun listDataFiles_loop :: "(string \<times> bool) list \<Rightarrow> string list \<Rightarrow> string list" where
  "listDataFiles_loop [] files = files"
| "listDataFiles_loop ((name, isDir) # entries) files =
     (if isDir then listDataFiles_loop entries files
      else if supportedExts (lowerExt name) then listDataFiles_loop entries (files @ [name])
      else listDataFiles_loop entries files)"

definition listDataFiles :: "world \<Rightarrow> error + string list" where
  "listDataFiles w =
     (case dataDir w of
        Inl err \<Rightarrow> Inl err
      | Inr entries \<Rightarrow> Inr (sort (listDataFiles_loop entries [])))"

definition updateMenu :: "world \<Rightarrow> model \<Rightarrow> Msg \<Rightarrow> model \<times> Cmd option \<times> world" where
  "updateMenu w m msg =
     (case msg of
        OtherMsg \<Rightarrow> (m, None, w)
      | KeyMsg key \<Rightarrow>
          if key = ''up'' \<or> key = ''k'' then
            (if menuChoice m > 0 then m\<lparr>menuChoice := menuChoice m - 1\<rparr> else m, None, w)
          else if key = ''down'' \<or> key = ''j'' then
            (if menuChoice m < int (length menuOptions) - 1
             then m\<lparr>menuChoice := menuChoice m + 1\<rparr> else m, None, w)
          else if key = ''enter'' then
            (if menuChoice m = int (length menuOptions) - 1 then (m, Some Quit, w)
             else
               case listDataFiles w of
                 Inl err \<Rightarrow>
                   (m\<lparr>state := stateResult, resultMsg := ErrorReadingDir err,
                      isError := True\<rparr>, None, w)
               | Inr files \<Rightarrow>
                   (m\<lparr>state := stateFileSelector, fileList := files @ [''Back''],
                      fileChoice := 0\<rparr>, None, w))
          else if key = ''q'' \<or> key = ''ctrl+c'' then (m, Some Quit, w)
          else if key = ''r'' then
            (let (m', w') = refreshCounts m w in (m', None, w'))
          else (m, None, w))"

text \<open>
  The part of \<open>updateFileMenu\<close> after the file name is known: \<open>m\<close> has \<open>selectedFile\<close> set.
\<close>

definition parseSelected :: "world \<Rightarrow> string \<Rightarrow> error + string list" where
  "parseSelected w path =
     (let ext = lowerExt path in
      if ext = ''.csv'' then ParseCSV (csvFiles w path)
      else if ext = ''.json'' then ParseJSON (jsonFiles w path)
      else if ext = ''.yaml'' \<or> ext = ''.yml'' then ParseYAML (yamlFiles w path)
      else Inl UnsupportedFileType)"

definition failed :: "model \<Rightarrow> resultText \<Rightarrow> model" where
  "failed m txt = m\<lparr>state := stateResult, resultMsg := txt, isError := True\<rparr>"

definition succeeded :: "model \<Rightarrow> resultText \<Rightarrow> model" where
  "succeeded m txt = m\<lparr>state := stateResult, resultMsg := txt, isError := False\<rparr>"

definition uploadSelected :: "world \<Rightarrow> model \<Rightarrow> model \<times> Cmd option \<times> world" where
  "uploadSelected w m =
     (case parseSelected w (selectedFile m) of
        Inl err \<Rightarrow> (failed m (ErrorParsingFile err), None, w)
      | Inr names \<Rightarrow>
          if menuChoice m = 4 then
            (case ParseExercisesCSV (csvFiles w (selectedFile m)) of
               Inl err \<Rightarrow> (failed m (ErrorParsingExercises err), None, w)
             | Inr rows \<Rightarrow>
                 (case InsertExercises (sqlDB w) rows of
                    (Some err, d) \<Rightarrow> (failed m (DatabaseError err), None, w\<lparr>sqlDB := d\<rparr>)
                  | (None, d) \<Rightarrow>
                      (succeeded m (UploadedExercises (length rows)), None,
                       w\<lparr>sqlDB := d\<rparr>)))
          else
            (let query =
               (if menuChoice m = 0 then InsertMuscleGroupQuery
                else if menuChoice m = 1 then InsertTrainingTypeQuery
                else if menuChoice m = 2 then InsertCategoryQuery
                else if menuChoice m = 3 then InsertEquipmentQuery
                else EmptyQuery)
             in case InsertNamesToDB (sqlDB w) query names of
                  (Some err, d) \<Rightarrow> (failed m (DatabaseError err), None, w\<lparr>sqlDB := d\<rparr>)
                | (None, d) \<Rightarrow>
                    (succeeded m (UploadedEntries (length names)), None,
                     w\<lparr>sqlDB := d\<rparr>)))"

definition updateFileMenu ::
  "world \<Rightarrow> model \<Rightarrow> Msg \<Rightarrow> panic + (model \<times> Cmd option \<times> world)" where
  "updateFileMenu w m msg =
     (case msg of
        OtherMsg \<Rightarrow> Inr (m, None, w)
      | KeyMsg key \<Rightarrow>
          if key = ''up'' \<or> key = ''k'' then
            Inr (if fileChoice m > 0 then m\<lparr>fileChoice := fileChoice m - 1\<rparr> else m,
                 None, w)
          else if key = ''down'' \<or> key = ''j'' then
            Inr (if fileChoice m < int (length (fileList m)) - 1
                 then m\<lparr>fileChoice := fileChoice m + 1\<rparr> else m, None, w)
          else if key = ''q'' \<or> key = ''esc'' then Inr (m\<lparr>state := stateMenu\<rparr>, None, w)
          else if key = ''enter'' then
            (case index (fileList m) (fileChoice m) of
               Inl p \<Rightarrow> Inl p
             | Inr file \<Rightarrow>
                 if file = ''Back'' then Inr (m\<lparr>state := stateMenu\<rparr>, None, w)
                 else
                   Inr (uploadSelected w
                          (m\<lparr>selectedFile := filepath_Join ''./src/internal/data/'' file\<rparr>)))
          else Inr (m, None, w))"

definition Update :: "world \<Rightarrow> model \<Rightarrow> Msg \<Rightarrow> panic + (model \<times> Cmd option \<times> world)" where
  "Update w m msg =
     (case state m of
        stateMenu \<Rightarrow> Inr (updateMenu w m msg)
      | stateFileSelector \<Rightarrow> updateFileMenu w m msg
      | stateResult \<Rightarrow>
          (if msg = KeyMsg ''enter'' \<or> msg = KeyMsg ''q'' \<or> msg = KeyMsg ''esc'' then
             (let (m', w') =
                refreshCounts (m\<lparr>state := stateMenu, resultMsg := NoText, isError := False\<rparr>) w
              in Inr (m', None, w'))
           else Inr (m, None, w)))"

text \<open>
  The models the program can be in: the terminal library starts from \<open>initialModel\<close> and
  passes every message to \<open>Update\<close>, in whatever state the world then is.
\<close>

inductive reachable :: "model \<Rightarrow> bool" where
  start: "initialModel w = (m, w') \<Longrightarrow> reachable m"
| step: "reachable m \<Longrightarrow> Update w m msg = Inr (m', c, w') \<Longrightarrow> reachable m'"

section \<open>Notions used in the statements\<close>

text \<open>A string begins, or ends, with a rune of white space.\<close>

definition spaceAtStart :: "string \<Rightarrow> bool" where
  "spaceAtStart p \<longleftrightarrow> (\<exists>w \<in> set unicodeSpace. prefix w p)"

definition spaceAtEnd :: "string \<Rightarrow> bool" where
  "spaceAtEnd p \<longleftrightarrow> (\<exists>w \<in> set unicodeSpace. suffix w p)"

text \<open>The calls of \<open>db.Exec(q, name)\<close> for the names of a list, in its order.\<close>

definition sent :: "query \<Rightarrow> string list \<Rightarrow> call list" where
  "sent q names = map (\<lambda>name. CallStatement (ExecQuery q name)) names"

text \<open>The statement \<open>q\<close> finds its name in the table: it would insert nothing.\<close>

definition present :: "query \<Rightarrow> string \<Rightarrow> store \<Rightarrow> bool" where
  "present q name s \<longleftrightarrow>
     (case q of EmptyQuery \<Rightarrow> True | InsertNameQuery t \<Rightarrow> name \<in> snd ` set (nameRows s t))"

text \<open>
  Between two moments of a transaction only statements were sent, and the environment is
  the same.
\<close>

definition statementsOnly :: "tx \<Rightarrow> tx \<Rightarrow> bool" where
  "statementsOnly t t' \<longleftrightarrow>
     (\<exists>sts. calls (conn t') = calls (conn t) @ map CallStatement sts) \<and>
     faults (conn t') = faults (conn t)"

text \<open>A database with no rows, which has received no call and in which no call fails.\<close>

definition emptyStore :: store where
  "emptyStore = \<lparr>nameRows = (\<lambda>t. []), exercises = [], links = (\<lambda>j. [])\<rparr>"

definition emptyDB :: database where
  "emptyDB = \<lparr>committed = emptyStore, calls = [], faults = (\<lambda>n. None)\<rparr>"

text \<open>The same, but the call number \<open>k\<close> fails.\<close>

definition failingAt :: "nat \<Rightarrow> database" where
  "failingAt k = emptyDB\<lparr>faults := (\<lambda>n. if n = k then Some (Failure 1) else None)\<rparr>"

text \<open>
  The file list ends with \<open>Back\<close> and the highlighted index is one of its positions; the
  invariant asks for this in the file selector.
\<close>

definition fileChoiceInRange :: "model \<Rightarrow> bool" where
  "fileChoiceInRange m \<longleftrightarrow>
     fileList m \<noteq> [] \<and> last (fileList m) = ''Back'' \<and>
     0 \<le> fileChoice m \<and> fileChoice m < int (length (fileList m))"

definition selectorInv :: "model \<Rightarrow> bool" where
  "selectorInv m \<longleftrightarrow> (state m = stateFileSelector \<longrightarrow> fileChoiceInRange m)"

text \<open>A world whose data directory holds one file, and whose database is empty.\<close>

definition oneFileWorld :: world where
  "oneFileWorld =
     \<lparr>sqlDB = emptyDB, dataDir = Inr [(''equipment.csv'', False)],
      csvFiles = (\<lambda>path. Inr [[''name''], [''Barbell''], [''Dumbbell''], [''Barbell'']]),
      jsonFiles = (\<lambda>path. Inl (Failure 2)), yamlFiles = (\<lambda>path. Inl (Failure 2))\<rparr>"

text \<open>Models to try the statements on.\<close>

definition menuModel :: model where
  "menuModel =
     \<lparr>state = stateMenu, menuChoice = 0, fileList = [], fileChoice = 0,
      selectedFile = [], resultMsg = NoText, isError = False, counts = []\<rparr>"

definition selectorModel :: model where
  "selectorModel =
     menuModel\<lparr>state := stateFileSelector, fileList := [''equipment.csv'', ''Back'']\<rparr>"

definition afterEnter :: model where
  "afterEnter =
     (fst (initialModel oneFileWorld))
       \<lparr>state := stateFileSelector, fileList := [''equipment.csv'', ''Back''],
        fileChoice := 0\<rparr>"

section \<open>The parsers: properties\<close>

subsection \<open>The loops as maps and filters\<close>

lemma ParseExercisesCSV_loop_Suc:
  "ParseExercisesCSV_loop (Suc i) records rows =
     rows @ map uploadRow (filter (\<lambda>rec. 6 \<le> length rec) records)"
  by (induction records arbitrary: i rows) (auto simp: not_less)

lemma ParseCSV_loop_Suc:
  "ParseCSV_loop (Suc i) records names =
     names @ map hd (filter (\<lambda>rec. rec \<noteq> []) records)"
  by (induction records arbitrary: i names) (auto simp: hd_conv_nth)

lemma SplitAndTrim_loop_eq:
  "SplitAndTrim_loop parts out =
     out @ filter (\<lambda>p. p \<noteq> []) (map (\<lambda>p. TrimSpace (Trim p [quote])) parts)"
  by (induction parts arbitrary: out) (auto simp: Let_def)

subsection \<open>Trimming\<close>

lemma trimLeftSeqs_no_prefix:
  "w \<in> set ws \<Longrightarrow> w \<noteq> [] \<Longrightarrow> \<not> prefix w (trimLeftSeqs ws s)"
proof (induction ws s rule: trimLeftSeqs.induct)
  case (1 ws s)
  show ?case
  proof (cases "find (\<lambda>w. w \<noteq> [] \<and> prefix w s) ws")
    case None
    then have "\<not> prefix w s"
      using "1.prems" by (auto simp: find_None_iff)
    with None show ?thesis by (subst trimLeftSeqs.simps) simp
  next
    case (Some v)
    with "1.IH"[OF Some] "1.prems" show ?thesis by (subst trimLeftSeqs.simps) simp
  qed
qed

lemma trimLeftSeqs_suffix: "suffix (trimLeftSeqs ws s) s"
proof (induction ws s rule: trimLeftSeqs.induct)
  case (1 ws s)
  show ?case
  proof (cases "find (\<lambda>w. w \<noteq> [] \<and> prefix w s) ws")
    case None
    then show ?thesis by (subst trimLeftSeqs.simps) simp
  next
    case (Some v)
    have "suffix (trimLeftSeqs ws (drop (length v) s)) (drop (length v) s)"
      using "1.IH"[OF Some] .
    moreover have "suffix (drop (length v) s) s"
      by (rule suffix_drop)
    ultimately have "suffix (trimLeftSeqs ws (drop (length v) s)) s"
      by (rule suffix_order.trans)
    with Some show ?thesis by (subst trimLeftSeqs.simps) simp
  qed
qed

lemma unicodeSpace_nonempty: "w \<in> set unicodeSpace \<Longrightarrow> w \<noteq> []"
  by (auto simp: unicodeSpace_def)

lemma TrimSpace_no_space_at_end: "\<not> spaceAtEnd (TrimSpace s)"
proof
  assume "spaceAtEnd (TrimSpace s)"
  then obtain w where w: "w \<in> set unicodeSpace" and suf: "suffix w (TrimSpace s)"
    by (auto simp: spaceAtEnd_def)
  let ?u = "trimLeftSeqs (map rev unicodeSpace) (rev (trimLeftSeqs unicodeSpace s))"
  from suf have "prefix (rev w) ?u"
    by (simp add: TrimSpace_def suffix_to_prefix)
  moreover have "rev w \<in> set (map rev unicodeSpace)" "rev w \<noteq> []"
    using w unicodeSpace_nonempty by auto
  ultimately show False
    using trimLeftSeqs_no_prefix by blast
qed

lemma TrimSpace_no_space_at_start: "\<not> spaceAtStart (TrimSpace s)"
proof
  assume "spaceAtStart (TrimSpace s)"
  then obtain w where w: "w \<in> set unicodeSpace" and pre: "prefix w (TrimSpace s)"
    by (auto simp: spaceAtStart_def)
  let ?t = "trimLeftSeqs unicodeSpace s"
  have "suffix (trimLeftSeqs (map rev unicodeSpace) (rev ?t)) (rev ?t)"
    by (rule trimLeftSeqs_suffix)
  then have "prefix (TrimSpace s) ?t"
    by (simp add: TrimSpace_def suffix_to_prefix)
  with pre have "prefix w ?t"
    by (rule prefix_order.trans)
  then show False
    using trimLeftSeqs_no_prefix[OF w unicodeSpace_nonempty[OF w]] by blast
qed

lemma Trim_ends:
  assumes "Trim p cutset \<noteq> []"
  shows "hd (Trim p cutset) \<notin> set cutset \<and> last (Trim p cutset) \<notin> set cutset"
proof -
  define r where "r = dropWhile (\<lambda>c. c \<in> set cutset) (rev p)"
  have t: "Trim p cutset = dropWhile (\<lambda>c. c \<in> set cutset) (rev r)"
    by (simp add: Trim_def r_def)
  from assms have "hd (Trim p cutset) \<notin> set cutset"
    unfolding t by (rule hd_dropWhile)
  moreover have "last (Trim p cutset) \<notin> set cutset"
  proof -
    have ne: "r \<noteq> []"
    proof
      assume "r = []"
      then have "Trim p cutset = []" unfolding t by simp
      with assms show False ..
    qed
    then have h: "hd r \<notin> set cutset"
      unfolding r_def by (rule hd_dropWhile)
    have l: "last (rev r) = hd r" using ne by (simp add: last_rev)
    have "rev r = takeWhile (\<lambda>c. c \<in> set cutset) (rev r) @ Trim p cutset"
      unfolding t by simp
    then have "last (rev r) = last (takeWhile (\<lambda>c. c \<in> set cutset) (rev r) @ Trim p cutset)"
      by simp
    also have "\<dots> = last (Trim p cutset)" using assms by simp
    finally show ?thesis using h l by simp
  qed
  ultimately show ?thesis ..
qed

subsection \<open>Splitting\<close>

lemma Split_from_nonempty: "Split_from sep cur s \<noteq> []"
  by (induction sep cur s rule: Split_from.induct) (subst Split_from.simps, simp)

lemma Join_Cons: "ps \<noteq> [] \<Longrightarrow> Join (p # ps) sep = p @ sep @ Join ps sep"
  by (cases ps) simp_all

lemma Join_Split_from: "sep \<noteq> [] \<Longrightarrow> Join (Split_from sep cur s) sep = cur @ s"
proof (induction sep cur s rule: Split_from.induct)
  case (1 sep cur s)
  show ?case
  proof (cases "s = []")
    case True
    then show ?thesis by (subst Split_from.simps) simp
  next
    case ne: False
    show ?thesis
    proof (cases "prefix sep s")
      case True
      then have s: "s = sep @ drop (length sep) s"
        by (auto simp: prefix_def)
      have "Join (Split_from sep cur s) sep =
              cur @ sep @ Join (Split_from sep [] (drop (length sep) s)) sep"
        using ne True "1.prems"
        by (subst Split_from.simps) (simp add: Join_Cons Split_from_nonempty)
      also have "\<dots> = cur @ sep @ drop (length sep) s"
        using "1.IH"(1)[OF ne _ "1.prems"] True "1.prems" by simp
      finally show ?thesis using s by simp
    next
      case False
      have "Join (Split_from sep cur s) sep = Join (Split_from sep (cur @ [hd s]) (tl s)) sep"
        using ne False by (subst Split_from.simps) simp
      also have "\<dots> = (cur @ [hd s]) @ tl s"
        using "1.IH"(2)[OF ne _ "1.prems"] False by simp
      finally show ?thesis using ne by simp
    qed
  qed
qed

lemma Join_empty_sep: "Join ps [] = concat ps"
  by (induction ps "[] :: string" rule: Join.induct) simp_all

lemma concat_explodeRunes: "concat (explodeRunes s) = s"
proof (induction s rule: explodeRunes.induct)
  case (1 s)
  show ?case
  proof (cases "s = []")
    case True
    then show ?thesis by (subst explodeRunes.simps) simp
  next
    case False
    with "1.IH" show ?thesis by (subst explodeRunes.simps) simp
  qed
qed

lemma Join_Split: "Join (Split s sep) sep = s"
  by (simp add: Split_def Join_Split_from Join_empty_sep concat_explodeRunes)

lemma Split_from_byte_Nil: "Split_from [c] cur [] = [cur]"
  by (subst Split_from.simps) simp

lemma Split_from_byte_Cons:
  "Split_from [c] cur (x # xs) =
     (if x = c then cur # Split_from [c] [] xs else Split_from [c] (cur @ [x]) xs)"
  by (subst Split_from.simps) simp

lemma Split_from_byte_pieces:
  "c \<notin> set cur \<Longrightarrow> p \<in> set (Split_from [c] cur s) \<Longrightarrow> c \<notin> set p"
proof (induction s arbitrary: cur)
  case Nil
  then show ?case by (simp add: Split_from_byte_Nil)
next
  case (Cons x xs)
  show ?case
  proof (cases "x = c")
    case True
    with Cons.prems have "p = cur \<or> p \<in> set (Split_from [c] [] xs)"
      by (simp add: Split_from_byte_Cons)
    then show ?thesis
    proof
      assume "p = cur"
      with Cons.prems(1) show ?thesis by simp
    next
      assume "p \<in> set (Split_from [c] [] xs)"
      with Cons.IH[of "[]"] show ?thesis by simp
    qed
  next
    case False
    with Cons.prems have "p \<in> set (Split_from [c] (cur @ [x]) xs)"
      by (simp add: Split_from_byte_Cons)
    moreover have "c \<notin> set (cur @ [x])" using Cons.prems(1) False by simp
    ultimately show ?thesis by (rule Cons.IH[rotated])
  qed
qed

lemma Split_byte_pieces: "p \<in> set (Split s [c]) \<Longrightarrow> c \<notin> set p"
  using Split_from_byte_pieces[of c "[]" p s] by (simp add: Split_def)

lemma SplitAndTrim_example: "SplitAndTrim ''A; B ;;C'' '';'' = [''A'', ''B'', ''C'']"
  by (simp add: SplitAndTrim_def Split_def TrimSpace_def Trim_def unicodeSpace_def quote_def
      Split_from.simps trimLeftSeqs.simps)

subsection \<open>The claims about the parsers\<close>

text \<open>
  On records, the loop of \<open>ParseExercisesCSV\<close> skips the first whatever it holds, drops
  every later one of fewer than 6 fields, and turns each of 6 or more fields into one
  upload row, in order.
\<close>

lemma ParseExercisesCSV_rows:
  "ParseExercisesCSV (Inr (header # records)) =
     Inr (map uploadRow (filter (\<lambda>rec. 6 \<le> length rec) records))"
  by (simp add: ParseExercisesCSV_def ParseExercisesCSV_loop_Suc)

text \<open>
  On the records of a file, read as the program reads them, the test for 6 fields never
  tells two rows of one file apart: a file whose rows differ in their number of fields is
  refused by the reader, and of a file it accepts all rows are kept or all are dropped.
\<close>

lemma ParseExercisesCSV_ReadAll:
  "ParseExercisesCSV (ReadAll (header # rows)) =
     (if list_all (\<lambda>rec. length rec = length header) rows
      then Inr (if 6 \<le> length header then map uploadRow rows else [])
      else Inl ErrFieldCount)"
proof (cases "list_all (\<lambda>rec. length rec = length header) rows")
  case True
  then have same: "\<forall>rec \<in> set rows. length rec = length header"
    by (simp add: list_all_iff)
  have "filter (\<lambda>rec. 6 \<le> length rec) rows = (if 6 \<le> length header then rows else [])"
  proof (cases "6 \<le> length header")
    case True
    with same have "\<forall>rec \<in> set rows. 6 \<le> length rec" by simp
    then have "filter (\<lambda>rec. 6 \<le> length rec) rows = rows" by (simp add: filter_id_conv)
    with True show ?thesis by simp
  next
    case False
    with same have "\<forall>rec \<in> set rows. \<not> 6 \<le> length rec" by simp
    then have "filter (\<lambda>rec. 6 \<le> length rec) rows = []" by (simp add: filter_empty_conv)
    with False show ?thesis by simp
  qed
  with True show ?thesis
    by (simp add: ReadAll_def ParseExercisesCSV_rows)
next
  case False
  then show ?thesis by (simp add: ReadAll_def ParseExercisesCSV_def)
qed

text \<open>
  C7 asks that a data row of fewer than 6 columns be dropped silently. Here the header has
  6 columns and the one data row has 3: the reader refuses the file, and
  \<open>ParseExercisesCSV\<close> returns its error, not the empty list of rows.
\<close>

theorem ParseExercisesCSV_short_row:
  "ParseExercisesCSV
     (ReadAll [[''Name'', ''Description'', ''Category'', ''Equipment'', ''Types'', ''Muscles''],
               [''Push-up'', ''Bodyweight'', ''Chest'']])
   = Inl ErrFieldCount"
  by (simp add: ReadAll_def ParseExercisesCSV_def)

text \<open>
  C2, as the claim states it, fails: a file with a header and zero data rows gives the
  empty row list and no error.
\<close>

theorem ParseExercisesCSV_header_only:
  "ParseExercisesCSV
     (Inr [[''Name'', ''Description'', ''Category'', ''Equipment'', ''Types'', ''Muscles'']])
   = Inr []"
  by (simp add: ParseExercisesCSV_def)

text \<open>
  C2, amended. \<open>ParseExercisesCSV\<close> returns an error for decoded records exactly when
  there is no record at all, not even a header, and the error is then "no records found";
  a header alone gives the empty row list.
\<close>

theorem ParseExercisesCSV_error_iff:
  "ParseExercisesCSV (Inr []) = Inl NoRecordsFound \<and>
   ParseExercisesCSV (Inr [header]) = Inr [] \<and>
   ((\<exists>err. ParseExercisesCSV (Inr records) = Inl err) \<longleftrightarrow> records = [])"
  by (cases records) (simp_all add: ParseExercisesCSV_def)

text \<open>
  C3, as the claim states it, fails: a first cell \<open>NAME\<close> equals \<open>name\<close> but for the case
  of its letters, and the row is kept as data.
\<close>

theorem ParseCSV_upper_case_header:
  "ParseCSV (Inr [[''NAME''], [''Barbell'']]) = Inr [''NAME'', ''Barbell'']"
  by (simp add: ParseCSV_def)

text \<open>
  C3, amended. \<open>ParseCSV\<close> skips the first record exactly when it is empty or its first
  cell is \<open>name\<close> or \<open>Name\<close>, spelled so; any other first record gives its first cell,
  and every later record that is not empty gives its first cell, in the order of the
  file.
\<close>

theorem ParseCSV_header:
  "ParseCSV (Inr (first # records)) =
     Inr ((if first = [] \<or> hd first = ''name'' \<or> hd first = ''Name'' then [] else [hd first])
          @ map hd (filter (\<lambda>rec. rec \<noteq> []) records))"
  by (simp add: ParseCSV_def ParseCSV_loop_Suc hd_conv_nth)

text \<open>
  What \<open>SplitAndTrim\<close> computes. The string is cut at the separator: joining the pieces
  with the separator gives the string back, and no piece holds the separator (shown for a
  separator of one byte, as \<open>;\<close> is). Each piece has the quote characters at its two ends
  removed and then the white space at the two ends of what is left, and the pieces that
  are then empty are left out. So no item returned is empty, or begins or ends with white
  space; and \<open>A; B ;;C\<close> gives \<open>A\<close>, \<open>B\<close>, \<open>C\<close>.
\<close>

lemma SplitAndTrim_items:
  "SplitAndTrim s sep =
     filter (\<lambda>p. p \<noteq> []) (map (\<lambda>p. TrimSpace (Trim p [quote])) (Split s sep)) \<and>
   Join (Split s sep) sep = s \<and>
   (\<forall>p \<in> set (Split s [c]). c \<notin> set p) \<and>
   (\<forall>p \<in> set (SplitAndTrim s sep). p \<noteq> [] \<and> \<not> spaceAtStart p \<and> \<not> spaceAtEnd p) \<and>
   SplitAndTrim ''A; B ;;C'' '';'' = [''A'', ''B'', ''C'']"
proof -
  have eq: "SplitAndTrim s sep =
     filter (\<lambda>p. p \<noteq> []) (map (\<lambda>p. TrimSpace (Trim p [quote])) (Split s sep))"
    by (simp add: SplitAndTrim_def SplitAndTrim_loop_eq)
  have "\<forall>p \<in> set (SplitAndTrim s sep). p \<noteq> [] \<and> \<not> spaceAtStart p \<and> \<not> spaceAtEnd p"
    unfolding eq using TrimSpace_no_space_at_start TrimSpace_no_space_at_end by auto
  moreover have "\<forall>p \<in> set (Split s [c]). c \<notin> set p"
    using Split_byte_pieces by blast
  ultimately show ?thesis
    using eq Join_Split SplitAndTrim_example by (intro conjI)
qed

text \<open>
  C4 asks that every item come back without the quote characters around it. In
  \<open>A; "B"\<close> the second item has a space before its quotes: the quote at its end is
  removed, the one at its start is not, because the quotes are trimmed before the white
  space is, and the item returned is \<open>"B\<close>. In \<open>"B" ;C\<close> the first item has a space after
  its quotes and comes back as \<open>B"\<close>.
\<close>

theorem SplitAndTrim_keeps_quote:
  "SplitAndTrim (''A; '' @ [quote] @ ''B'' @ [quote]) '';'' = [''A'', [quote] @ ''B''] \<and>
   SplitAndTrim ([quote] @ ''B'' @ [quote] @ '' ;C'') '';'' = [''B'' @ [quote], ''C'']"
  by (simp add: SplitAndTrim_def Split_def TrimSpace_def Trim_def unicodeSpace_def quote_def
      Split_from.simps trimLeftSeqs.simps)

section \<open>The repository layer: properties\<close>

subsection \<open>\<open>InsertNamesToDB\<close>\<close>

lemma Exec_ok:
  "nextFault db = None \<Longrightarrow>
   Exec db q name =
     (None, db\<lparr>committed := runQuery q name (committed db),
               calls := calls db @ [CallStatement (ExecQuery q name)]\<rparr>)"
  by (simp add: Exec_def received_def)

lemma Exec_fails:
  "nextFault db = Some e \<Longrightarrow>
   Exec db q name = (Some e, db\<lparr>calls := calls db @ [CallStatement (ExecQuery q name)]\<rparr>)"
  by (simp add: Exec_def received_def)

lemma InsertNamesToDB_all_ok:
  "\<forall>i<length names. faults db (length (calls db) + i) = None \<Longrightarrow>
   InsertNamesToDB db q names =
     (None, db\<lparr>committed := fold (runQuery q) names (committed db),
               calls := calls db @ sent q names\<rparr>)"
proof (induction names arbitrary: db)
  case Nil
  then show ?case by (simp add: sent_def)
next
  case (Cons name names)
  let ?db' = "db\<lparr>committed := runQuery q name (committed db),
                 calls := calls db @ [CallStatement (ExecQuery q name)]\<rparr>"
  from Cons.prems have "faults db (length (calls db) + 0) = None" by blast
  then have ok: "nextFault db = None" by (simp add: nextFault_def)
  have "\<forall>i<length names. faults ?db' (length (calls ?db') + i) = None"
  proof (intro allI impI)
    fix i assume "i < length names"
    then have "faults db (length (calls db) + Suc i) = None"
      using Cons.prems by (metis Suc_less_eq length_Cons)
    then show "faults ?db' (length (calls ?db') + i) = None" by simp
  qed
  from Cons.IH[OF this] show ?case
    by (simp add: Exec_ok[OF ok] sent_def)
qed

lemma InsertNamesToDB_first_failure:
  "k < length names \<Longrightarrow>
   \<forall>i<k. faults db (length (calls db) + i) = None \<Longrightarrow>
   faults db (length (calls db) + k) = Some e \<Longrightarrow>
   InsertNamesToDB db q names =
     (Some e, db\<lparr>committed := fold (runQuery q) (take k names) (committed db),
                 calls := calls db @ sent q (take (Suc k) names)\<rparr>)"
proof (induction names arbitrary: db k)
  case Nil
  then show ?case by simp
next
  case (Cons name names)
  show ?case
  proof (cases k)
    case 0
    with Cons.prems have "nextFault db = Some e" by (simp add: nextFault_def)
    with 0 show ?thesis by (simp add: Exec_fails sent_def)
  next
    case (Suc j)
    let ?db' = "db\<lparr>committed := runQuery q name (committed db),
                   calls := calls db @ [CallStatement (ExecQuery q name)]\<rparr>"
    from Cons.prems Suc have "faults db (length (calls db) + 0) = None" by blast
    then have ok: "nextFault db = None" by (simp add: nextFault_def)
    have j: "j < length names" using Cons.prems Suc by simp
    have pre: "\<forall>i<j. faults ?db' (length (calls ?db') + i) = None"
    proof (intro allI impI)
      fix i assume "i < j"
      then have "Suc i < k" using Suc by simp
      then have "faults db (length (calls db) + Suc i) = None"
        using Cons.prems by blast
      then show "faults ?db' (length (calls ?db') + i) = None" by simp
    qed
    have at: "faults ?db' (length (calls ?db') + j) = Some e"
      using Cons.prems Suc by simp
    from Cons.IH[OF j pre at] Suc show ?thesis
      by (simp add: Exec_ok[OF ok] sent_def)
  qed
qed

text \<open>
  C5. \<open>InsertNamesToDB\<close> sends one \<open>db.Exec(query, name)\<close> for each name, in the order of
  the list and outside any transaction. When none of these calls fails it returns no error
  and every statement has been applied. When the call for the name at position \<open>k\<close> is the
  first that fails, with \<open>e\<close>, it returns \<open>e\<close>, has sent nothing for the names after
  position \<open>k\<close>, and the statements for the names before \<open>k\<close> stay applied to the
  committed rows.
\<close>

theorem InsertNamesToDB_stops_at_first_error:
  "((\<forall>i<length names. faults db (length (calls db) + i) = None) \<longrightarrow>
      InsertNamesToDB db q names =
        (None, db\<lparr>committed := fold (runQuery q) names (committed db),
                  calls := calls db @ sent q names\<rparr>)) \<and>
   (k < length names \<and> (\<forall>i<k. faults db (length (calls db) + i) = None) \<and>
    faults db (length (calls db) + k) = Some e \<longrightarrow>
      InsertNamesToDB db q names =
        (Some e, db\<lparr>committed := fold (runQuery q) (take k names) (committed db),
                    calls := calls db @ sent q (take (Suc k) names)\<rparr>))"
  using InsertNamesToDB_all_ok InsertNamesToDB_first_failure by blast

theorem InsertNamesToDB_stops_at_first_error_witness:
  "InsertNamesToDB emptyDB InsertEquipmentQuery [''Barbell'', ''Dumbbell''] =
     (None, emptyDB\<lparr>committed :=
                      emptyStore\<lparr>nameRows := (\<lambda>t. [])(equipment := [(1, ''Barbell''), (2, ''Dumbbell'')])\<rparr>,
                    calls := [CallStatement (ExecQuery InsertEquipmentQuery ''Barbell''),
                              CallStatement (ExecQuery InsertEquipmentQuery ''Dumbbell'')]\<rparr>) \<and>
   InsertNamesToDB (failingAt 1) InsertEquipmentQuery [''Barbell'', ''Dumbbell'', ''Kettlebell''] =
     (Some (Failure 1),
      (failingAt 1)\<lparr>committed :=
                      emptyStore\<lparr>nameRows := (\<lambda>t. [])(equipment := [(1, ''Barbell'')])\<rparr>,
                    calls := [CallStatement (ExecQuery InsertEquipmentQuery ''Barbell''),
                              CallStatement (ExecQuery InsertEquipmentQuery ''Dumbbell'')]\<rparr>)"
proof -
  have a: "\<forall>i<length [''Barbell'', ''Dumbbell''].
             faults emptyDB (length (calls emptyDB) + i) = None"
    by (simp add: emptyDB_def)
  have b: "(1::nat) < length [''Barbell'', ''Dumbbell'', ''Kettlebell''] \<and>
           (\<forall>i<1. faults (failingAt 1) (length (calls (failingAt 1)) + i) = None) \<and>
           faults (failingAt 1) (length (calls (failingAt 1)) + 1) = Some (Failure 1)"
    by (simp add: failingAt_def emptyDB_def)
  have A: "InsertNamesToDB emptyDB InsertEquipmentQuery [''Barbell'', ''Dumbbell''] =
     (None, emptyDB\<lparr>committed :=
                      fold (runQuery InsertEquipmentQuery) [''Barbell'', ''Dumbbell'']
                        (committed emptyDB),
                    calls := calls emptyDB @
                      sent InsertEquipmentQuery [''Barbell'', ''Dumbbell'']\<rparr>)"
    using a InsertNamesToDB_stops_at_first_error
      [where db = emptyDB and q = InsertEquipmentQuery and names = "[''Barbell'', ''Dumbbell'']"]
    by blast
  have B: "InsertNamesToDB (failingAt 1) InsertEquipmentQuery
             [''Barbell'', ''Dumbbell'', ''Kettlebell''] =
     (Some (Failure 1),
      (failingAt 1)\<lparr>committed :=
                      fold (runQuery InsertEquipmentQuery)
                        (take 1 [''Barbell'', ''Dumbbell'', ''Kettlebell''])
                        (committed (failingAt 1)),
                    calls := calls (failingAt 1) @
                      sent InsertEquipmentQuery
                        (take (Suc 1) [''Barbell'', ''Dumbbell'', ''Kettlebell''])\<rparr>)"
    using b InsertNamesToDB_stops_at_first_error
      [where db = "failingAt 1" and q = InsertEquipmentQuery and k = 1 and e = "Failure 1"
         and names = "[''Barbell'', ''Dumbbell'', ''Kettlebell'']"]
    by blast
  show ?thesis
    unfolding A B
    by (simp add: sent_def runQuery_def insertNameIgnore_def freshId_def
        InsertEquipmentQuery_def emptyDB_def emptyStore_def failingAt_def numeral_2_eq_2)
qed

subsection \<open>Running the same list twice\<close>

lemma runQuery_present: "present q name s \<Longrightarrow> runQuery q name s = s"
  by (cases q) (auto simp: present_def runQuery_def insertNameIgnore_def)

lemma present_runQuery: "present q name (runQuery q name s)"
  by (cases q) (auto simp: present_def runQuery_def insertNameIgnore_def)

lemma present_mono: "present q name s \<Longrightarrow> present q name (runQuery q other s)"
  by (cases q) (auto simp: present_def runQuery_def insertNameIgnore_def)

lemma present_fold_mono:
  "present q name s \<Longrightarrow> present q name (fold (runQuery q) others s)"
  by (induction others arbitrary: s) (auto simp: present_mono)

lemma present_fold:
  "name \<in> set names \<Longrightarrow> present q name (fold (runQuery q) names s)"
proof (induction names arbitrary: s)
  case Nil
  then show ?case by simp
next
  case (Cons a names)
  show ?case
  proof (cases "name = a")
    case True
    then show ?thesis
      by (simp add: present_fold_mono present_runQuery)
  next
    case False
    with Cons show ?thesis by simp
  qed
qed

lemma Exec_cases:
  "Exec db q name = (r, db') \<Longrightarrow>
   (r = None \<and> committed db' = runQuery q name (committed db)) \<or>
   (r \<noteq> None \<and> committed db' = committed db)"
  by (auto simp: Exec_def received_def split: option.splits)

lemma InsertNamesToDB_success_fold:
  "InsertNamesToDB db q names = (None, db1) \<Longrightarrow>
   committed db1 = fold (runQuery q) names (committed db)"
proof (induction names arbitrary: db)
  case Nil
  then show ?case by simp
next
  case (Cons name names)
  obtain r db' where ex: "Exec db q name = (r, db')" by (cases "Exec db q name")
  with Cons.prems have r: "r = None" and rest: "InsertNamesToDB db' q names = (None, db1)"
    by (auto split: option.splits)
  from Exec_cases[OF ex] r have "committed db' = runQuery q name (committed db)" by simp
  with Cons.IH[OF rest] show ?case by simp
qed

lemma InsertNamesToDB_all_present:
  "\<forall>name \<in> set names. present q name (committed db) \<Longrightarrow>
   InsertNamesToDB db q names = (r, db') \<Longrightarrow> committed db' = committed db"
proof (induction names arbitrary: db)
  case Nil
  then show ?case by simp
next
  case (Cons name names)
  obtain r1 db1 where ex: "Exec db q name = (r1, db1)" by (cases "Exec db q name")
  have same: "committed db1 = committed db"
    using Exec_cases[OF ex] Cons.prems(1) by (auto simp: runQuery_present)
  show ?case
  proof (cases r1)
    case None
    with ex Cons.prems(2) have "InsertNamesToDB db1 q names = (r, db')" by simp
    moreover have "\<forall>name \<in> set names. present q name (committed db1)"
      using Cons.prems(1) same by simp
    ultimately have "committed db' = committed db1" by (rule Cons.IH[rotated])
    with same show ?thesis by simp
  next
    case (Some e)
    with ex Cons.prems(2) have "db' = db1" by simp
    with same show ?thesis by simp
  qed
qed

lemma insertNameIgnore_names:
  "snd ` set (insertNameIgnore name rows) = insert name (snd ` set rows)"
  by (auto simp: insertNameIgnore_def)

lemma insertNameIgnore_distinct:
  "distinct (map snd rows) \<Longrightarrow> distinct (map snd (insertNameIgnore name rows))"
  by (auto simp: insertNameIgnore_def)

lemma fold_runQuery_rows:
  "nameRows (fold (runQuery (InsertNameQuery t)) names s) t =
     fold insertNameIgnore names (nameRows s t)"
  by (induction names arbitrary: s) (auto simp: runQuery_def)

lemma fold_insertNameIgnore_names:
  "snd ` set (fold insertNameIgnore names rows) = snd ` set rows \<union> set names"
  by (induction names arbitrary: rows) (auto simp: insertNameIgnore_names)

lemma fold_insertNameIgnore_distinct:
  "distinct (map snd rows) \<Longrightarrow> distinct (map snd (fold insertNameIgnore names rows))"
  by (induction names arbitrary: rows) (auto simp: insertNameIgnore_distinct)

text \<open>
  C6. When a run of \<open>InsertNamesToDB\<close> with an insert-or-ignore statement has returned
  without error, a second run with the same names, whatever it returns, leaves the
  committed rows as the first run left them: the rows of the table are the same, and so
  is the count of every table. After the first run the names of the table are those it
  had before and those of the list, and names that were distinct before are distinct
  after.
\<close>

theorem InsertNamesToDB_twice:
  assumes first: "InsertNamesToDB db (InsertNameQuery t) names = (None, db1)"
    and second: "InsertNamesToDB db1 (InsertNameQuery t) names = (r, db2)"
  shows "committed db2 = committed db1 \<and>
         nameRows (committed db2) t = nameRows (committed db1) t \<and>
         countRows table (committed db2) = countRows table (committed db1) \<and>
         snd ` set (nameRows (committed db1) t) =
           snd ` set (nameRows (committed db) t) \<union> set names \<and>
         (distinct (map snd (nameRows (committed db) t)) \<longrightarrow>
            distinct (map snd (nameRows (committed db1) t)))"
proof -
  have fold: "committed db1 = fold (runQuery (InsertNameQuery t)) names (committed db)"
    using first by (rule InsertNamesToDB_success_fold)
  then have "\<forall>name \<in> set names. present (InsertNameQuery t) name (committed db1)"
    by (simp add: present_fold)
  then have same: "committed db2 = committed db1"
    using second by (rule InsertNamesToDB_all_present)
  have rows: "nameRows (committed db1) t = fold insertNameIgnore names (nameRows (committed db) t)"
    by (simp add: fold fold_runQuery_rows)
  show ?thesis
    by (simp add: same rows fold_insertNameIgnore_names fold_insertNameIgnore_distinct)
qed

theorem InsertNamesToDB_twice_witness:
  "fst (InsertNamesToDB emptyDB InsertEquipmentQuery [''Barbell'', ''Dumbbell'', ''Barbell''])
     = None \<and>
   nameRows (committed (snd (InsertNamesToDB emptyDB InsertEquipmentQuery
       [''Barbell'', ''Dumbbell'', ''Barbell'']))) equipment
     = [(1, ''Barbell''), (2, ''Dumbbell'')] \<and>
   committed (snd (InsertNamesToDB
       (snd (InsertNamesToDB emptyDB InsertEquipmentQuery
              [''Barbell'', ''Dumbbell'', ''Barbell'']))
       InsertEquipmentQuery [''Barbell'', ''Dumbbell'', ''Barbell'']))
     = committed (snd (InsertNamesToDB emptyDB InsertEquipmentQuery
         [''Barbell'', ''Dumbbell'', ''Barbell''])) \<and>
   distinct (map snd (nameRows (committed (snd (InsertNamesToDB emptyDB InsertEquipmentQuery
       [''Barbell'', ''Dumbbell'', ''Barbell'']))) equipment))"
proof -
  let ?names = "[''Barbell'', ''Dumbbell'', ''Barbell'']"
  let ?db1 = "snd (InsertNamesToDB emptyDB (InsertNameQuery equipment) ?names)"
  let ?db2 = "snd (InsertNamesToDB ?db1 (InsertNameQuery equipment) ?names)"
  have rows: "nameRows (committed ?db1) equipment = [(1, ''Barbell''), (2, ''Dumbbell'')]"
    by (simp add: Exec_def nextFault_def received_def runQuery_def insertNameIgnore_def
        freshId_def emptyDB_def emptyStore_def)
  have ok: "fst (InsertNamesToDB emptyDB (InsertNameQuery equipment) ?names) = None"
    by (simp add: Exec_def nextFault_def received_def emptyDB_def)
  then have first: "InsertNamesToDB emptyDB (InsertNameQuery equipment) ?names = (None, ?db1)"
    by (simp add: prod_eq_iff)
  have second: "InsertNamesToDB ?db1 (InsertNameQuery equipment) ?names =
                  (fst (InsertNamesToDB ?db1 (InsertNameQuery equipment) ?names), ?db2)"
    by simp
  have before: "distinct (map snd (nameRows (committed emptyDB) equipment))"
    by (simp add: emptyDB_def emptyStore_def)
  from InsertNamesToDB_twice[OF first second, of "''equipment''"] before
  have "committed ?db2 = committed ?db1 \<and>
        distinct (map snd (nameRows (committed ?db1) equipment))"
    by simp
  with rows ok show ?thesis
    by (simp add: InsertEquipmentQuery_def)
qed

subsection \<open>\<open>GetTableCount\<close>\<close>

text \<open>
  C9. \<open>GetTableCount\<close> returns a number and no error. It is 0 when the call fails and
  when the statement fails because the store has no such table; otherwise it is the
  number of rows of the table. It changes no row.
\<close>

theorem GetTableCount_swallows_errors:
  "(nextFault db = Some e \<longrightarrow> fst (GetTableCount db t) = 0) \<and>
   (nextFault db = None \<and> countRows t (committed db) = None \<longrightarrow>
      fst (GetTableCount db t) = 0) \<and>
   (nextFault db = None \<and> countRows t (committed db) = Some n \<longrightarrow>
      fst (GetTableCount db t) = int n) \<and>
   committed (snd (GetTableCount db t)) = committed db"
  by (auto simp: GetTableCount_def QueryRowCount_def received_def split: option.splits)

theorem GetTableCount_swallows_errors_witness:
  "fst (GetTableCount (failingAt 0) ''equipment'') = 0 \<and>
   fst (GetTableCount emptyDB ''no_such_table'') = 0 \<and>
   fst (GetTableCount
          (emptyDB\<lparr>committed := emptyStore\<lparr>nameRows :=
             (\<lambda>t. [])(equipment := [(1, ''Barbell''), (2, ''Dumbbell'')])\<rparr>\<rparr>) ''equipment'') = 2"
proof -
  let ?db = "emptyDB\<lparr>committed := emptyStore\<lparr>nameRows :=
             (\<lambda>t. [])(equipment := [(1, ''Barbell''), (2, ''Dumbbell'')])\<rparr>\<rparr>"
  have a: "nextFault (failingAt 0) = Some (Failure 1)"
    by (simp add: nextFault_def failingAt_def emptyDB_def)
  have b: "nextFault emptyDB = None \<and> countRows ''no_such_table'' (committed emptyDB) = None"
    by (simp add: nextFault_def emptyDB_def countRows_def)
  have c: "nextFault ?db = None \<and> countRows ''equipment'' (committed ?db) = Some 2"
    by (simp add: nextFault_def emptyDB_def countRows_def emptyStore_def)
  from a b c
    GetTableCount_swallows_errors[of "failingAt 0" "Failure 1" "''equipment''"]
    GetTableCount_swallows_errors[of emptyDB _ "''no_such_table''"]
    GetTableCount_swallows_errors[of ?db _ "''equipment''" 2]
  show ?thesis by simp
qed

subsection \<open>\<open>InsertExercises\<close>\<close>

lemma statementsOnly_refl: "statementsOnly t t"
  unfolding statementsOnly_def by (intro conjI exI[of _ "[]"]) simp_all

lemma statementsOnly_trans:
  "statementsOnly t t1 \<Longrightarrow> statementsOnly t1 t2 \<Longrightarrow> statementsOnly t t2"
  unfolding statementsOnly_def
proof (elim conjE exE, intro conjI)
  fix a b
  assume "calls (conn t1) = calls (conn t) @ map CallStatement a"
    and "calls (conn t2) = calls (conn t1) @ map CallStatement b"
  then have "calls (conn t2) = calls (conn t) @ map CallStatement (a @ b)" by simp
  then show "\<exists>sts. calls (conn t2) = calls (conn t) @ map CallStatement sts" ..
qed simp

lemma txQueryRowId_statementsOnly:
  "txQueryRowId t st = (r, t') \<Longrightarrow> statementsOnly t t'"
  unfolding statementsOnly_def
  by (intro conjI exI[of _ "[st]"])
     (auto simp: txQueryRowId_def received_def Let_def
           split: option.splits statement.splits prod.splits)

lemma txExec_statementsOnly:
  "txExec t st = (r, t') \<Longrightarrow> statementsOnly t t'"
  unfolding statementsOnly_def
  by (intro conjI exI[of _ "[st]"])
     (auto simp: txExec_def received_def Let_def split: option.splits statement.splits)

lemma equipmentLoop_statementsOnly:
  "equipmentLoop t exID es = (r, t') \<Longrightarrow> statementsOnly t t'"
proof (induction es arbitrary: t)
  case Nil
  then show ?case by (simp add: statementsOnly_refl)
next
  case (Cons e0 es)
  show ?case
  proof (cases "TrimSpace e0 = [] \<or> EqualFold_None (TrimSpace e0)")
    case True
    with Cons show ?thesis by (simp add: Let_def)
  next
    case False
    obtain r1 t1 where g: "GetOrInsertEquipment t (TrimSpace e0) = (r1, t1)"
      by (cases "GetOrInsertEquipment t (TrimSpace e0)")
    then have s1: "statementsOnly t t1"
      by (simp add: GetOrInsertEquipment_def txQueryRowId_statementsOnly)
    show ?thesis
    proof (cases r1)
      case (Inl err)
      with Cons.prems False g s1 show ?thesis by (simp add: Let_def)
    next
      case (Inr equipID)
      obtain r2 t2 where x: "txExec t1 (InsertLink exercise_equipment exID equipID) = (r2, t2)"
        by (cases "txExec t1 (InsertLink exercise_equipment exID equipID)")
      then have s2: "statementsOnly t t2"
        using s1 txExec_statementsOnly statementsOnly_trans by blast
      show ?thesis
      proof (cases r2)
        case None
        with Cons.prems False g Inr x have "equipmentLoop t2 exID es = (r, t')"
          by (simp add: Let_def)
        then have "statementsOnly t2 t'" by (rule Cons.IH)
        with s2 show ?thesis by (rule statementsOnly_trans)
      next
        case (Some err)
        with Cons.prems False g Inr x s2 show ?thesis by (simp add: Let_def)
      qed
    qed
  qed
qed

lemma typesLoop_statementsOnly:
  "typesLoop t exID tys = (r, t') \<Longrightarrow> statementsOnly t t'"
proof (induction tys arbitrary: t)
  case Nil
  then show ?case by (simp add: statementsOnly_refl)
next
  case (Cons ty tys)
  obtain r1 t1 where g: "GetOrInsertType t ty = (r1, t1)"
    by (cases "GetOrInsertType t ty")
  then have s1: "statementsOnly t t1"
    by (simp add: GetOrInsertType_def txQueryRowId_statementsOnly)
  show ?case
  proof (cases r1)
    case (Inl err)
    with Cons.prems g s1 show ?thesis by simp
  next
    case (Inr typeID)
    obtain r2 t2 where x: "txExec t1 (InsertLink exercise_training_types exID typeID) = (r2, t2)"
      by (cases "txExec t1 (InsertLink exercise_training_types exID typeID)")
    then have s2: "statementsOnly t t2"
      using s1 txExec_statementsOnly statementsOnly_trans by blast
    show ?thesis
    proof (cases r2)
      case None
      with Cons.prems g Inr x have "typesLoop t2 exID tys = (r, t')" by simp
      then have "statementsOnly t2 t'" by (rule Cons.IH)
      with s2 show ?thesis by (rule statementsOnly_trans)
    next
      case (Some err)
      with Cons.prems g Inr x s2 show ?thesis by simp
    qed
  qed
qed

lemma musclesLoop_statementsOnly:
  "musclesLoop t exID ms = (r, t') \<Longrightarrow> statementsOnly t t'"
proof (induction ms arbitrary: t)
  case Nil
  then show ?case by (simp add: statementsOnly_refl)
next
  case (Cons m ms)
  obtain r1 t1 where g: "GetOrInsertMuscle t m = (r1, t1)"
    by (cases "GetOrInsertMuscle t m")
  then have s1: "statementsOnly t t1"
    by (simp add: GetOrInsertMuscle_def txQueryRowId_statementsOnly)
  show ?case
  proof (cases r1)
    case (Inl err)
    with Cons.prems g s1 show ?thesis by simp
  next
    case (Inr muscleID)
    obtain r2 t2 where x: "txExec t1 (InsertLink exercise_muscles exID muscleID) = (r2, t2)"
      by (cases "txExec t1 (InsertLink exercise_muscles exID muscleID)")
    then have s2: "statementsOnly t t2"
      using s1 txExec_statementsOnly statementsOnly_trans by blast
    show ?thesis
    proof (cases r2)
      case None
      with Cons.prems g Inr x have "musclesLoop t2 exID ms = (r, t')" by simp
      then have "statementsOnly t2 t'" by (rule Cons.IH)
      with s2 show ?thesis by (rule statementsOnly_trans)
    next
      case (Some err)
      with Cons.prems g Inr x s2 show ?thesis by simp
    qed
  qed
qed

lemma insertRow_statementsOnly:
  assumes "insertRow t row = (r, t')"
  shows "statementsOnly t t'"
proof -
  obtain r1 t1 where g: "GetOrInsertCategory t (Category row) = (r1, t1)"
    by (cases "GetOrInsertCategory t (Category row)")
  then have s1: "statementsOnly t t1"
    by (simp add: GetOrInsertCategory_def txQueryRowId_statementsOnly)
  show ?thesis
  proof (cases r1)
    case (Inl err)
    with assms g s1 show ?thesis by (simp add: insertRow_def)
  next
    case catID: (Inr catID)
    obtain r2 t2 where
      u: "txQueryRowId t1 (UpsertExercise (Name row) (Description row) catID) = (r2, t2)"
      by (cases "txQueryRowId t1 (UpsertExercise (Name row) (Description row) catID)")
    then have s2: "statementsOnly t t2"
      using s1 txQueryRowId_statementsOnly statementsOnly_trans by blast
    show ?thesis
    proof (cases r2)
      case (Inl err)
      with assms g catID u s2 show ?thesis by (simp add: insertRow_def)
    next
      case exID: (Inr exID)
      obtain r3 t3 where e: "equipmentLoop t2 exID (Equipment row) = (r3, t3)"
        by (cases "equipmentLoop t2 exID (Equipment row)")
      then have s3: "statementsOnly t t3"
        using s2 equipmentLoop_statementsOnly statementsOnly_trans by blast
      show ?thesis
      proof (cases r3)
        case (Some err)
        with assms g catID u exID e s3 show ?thesis by (simp add: insertRow_def)
      next
        case None
        obtain r4 t4 where ty: "typesLoop t3 exID (Types row) = (r4, t4)"
          by (cases "typesLoop t3 exID (Types row)")
        then have s4: "statementsOnly t t4"
          using s3 typesLoop_statementsOnly statementsOnly_trans by blast
        show ?thesis
        proof (cases r4)
          case (Some err)
          with assms g catID u exID e None ty s4 show ?thesis by (simp add: insertRow_def)
        next
          case n4: None
          with assms g catID u exID e None ty
          have "musclesLoop t4 exID (Muscles row) = (r, t')" by (simp add: insertRow_def)
          then have "statementsOnly t4 t'" by (rule musclesLoop_statementsOnly)
          with s4 show ?thesis by (rule statementsOnly_trans)
        qed
      qed
    qed
  qed
qed

lemma rowsLoop_statementsOnly:
  "rowsLoop t rows = (r, t') \<Longrightarrow> statementsOnly t t'"
proof (induction rows arbitrary: t)
  case Nil
  then show ?case by (simp add: statementsOnly_refl)
next
  case (Cons row rows)
  obtain r1 t1 where i: "insertRow t row = (r1, t1)" by (cases "insertRow t row")
  then have s1: "statementsOnly t t1" by (rule insertRow_statementsOnly)
  show ?case
  proof (cases r1)
    case None
    with Cons.prems i have "rowsLoop t1 rows = (r, t')" by simp
    then have "statementsOnly t1 t'" by (rule Cons.IH)
    with s1 show ?thesis by (rule statementsOnly_trans)
  next
    case (Some err)
    with Cons.prems i s1 show ?thesis by simp
  qed
qed

text \<open>
  Once \<open>db.Begin()\<close> has worked, \<open>InsertExercises\<close> ends the transaction with
  \<open>tx.Commit()\<close> for every list of rows and whatever fails on the way: the calls are
  \<open>Begin\<close>, statements, \<open>Commit\<close>, and \<open>tx.Rollback()\<close> is never among them.
\<close>

lemma InsertExercises_always_commits:
  assumes "nextFault db = None"
  shows "\<exists>sts. calls (snd (InsertExercises db rows)) =
           calls db @ [CallBegin] @ map CallStatement sts @ [CallCommit]"
proof -
  let ?t = "\<lparr>conn = received CallBegin db, work = committed db\<rparr>"
  have b: "Begin db = Inr ?t" using assms by (simp add: Begin_def)
  obtain r t' where l: "rowsLoop ?t rows = (r, t')" by (cases "rowsLoop ?t rows")
  then have "statementsOnly ?t t'" by (rule rowsLoop_statementsOnly)
  then obtain sts where
    "calls (conn t') = calls (conn ?t) @ map CallStatement sts"
    by (auto simp: statementsOnly_def)
  then have "calls (conn t') = calls db @ [CallBegin] @ map CallStatement sts"
    by (simp add: received_def)
  moreover have "snd (InsertExercises db rows) = snd (Commit t')"
    by (simp add: InsertExercises_def b l)
  moreover have "calls (snd (Commit t')) = calls (conn t') @ [CallCommit]"
    by (simp add: Commit_def received_def split: option.splits)
  ultimately show ?thesis by auto
qed

text \<open>
  C1 asks for a rollback when a row fails. Here the category of the second row cannot be
  resolved (call number 5 fails). \<open>InsertExercises\<close> returns the error, and its last call
  is \<open>tx.Commit()\<close>: where that call works, the exercise of the first row, its category,
  its muscle group and their junction row are committed.
\<close>

theorem InsertExercises_failing_batch:
  "InsertExercises
     (failingAt 5)
     [\<lparr>Name = ''Push-up'', Description = ''Bodyweight'', Category = ''Chest'',
       Equipment = [], Types = [], Muscles = [''Chest'']\<rparr>,
      \<lparr>Name = ''Row'', Description = ''Pull'', Category = ''Back'',
       Equipment = [], Types = [], Muscles = [''Back'']\<rparr>]
   = (Some (Wrapped ''category'' (Failure 1)),
      \<lparr>committed =
         \<lparr>nameRows = (\<lambda>t. [])(exercise_category := [(1, ''Chest'')],
                                muscle_group := [(1, ''Chest'')]),
          exercises = [\<lparr>exercise_id = 1, exercise_name = ''Push-up'',
                        exercise_description = ''Bodyweight'', exercise_category_id = 1\<rparr>],
          links = (\<lambda>j. [])(exercise_muscles := [(1, 1)])\<rparr>,
       calls =
         [CallBegin,
          CallStatement (UpsertName exercise_category ''Chest''),
          CallStatement (UpsertExercise ''Push-up'' ''Bodyweight'' 1),
          CallStatement (UpsertName muscle_group ''Chest''),
          CallStatement (InsertLink exercise_muscles 1 1),
          CallStatement (UpsertName exercise_category ''Back''),
          CallCommit],
       faults = (\<lambda>n. if n = 5 then Some (Failure 1) else None)\<rparr>)"
  by (simp add: InsertExercises_def Begin_def nextFault_def received_def emptyStore_def
      failingAt_def emptyDB_def
      insertRow_def GetOrInsertCategory_def GetOrInsertMuscle_def txQueryRowId_def txExec_def
      upsertName_def upsertExercise_def insertLink_def freshId_def Commit_def Let_def)

section \<open>The menu: properties\<close>

subsection \<open>The branches of the two update functions\<close>

lemma updateMenu_up:
  "key \<in> {''up'', ''k''} \<Longrightarrow>
   updateMenu w m (KeyMsg key) =
     (if menuChoice m > 0 then m\<lparr>menuChoice := menuChoice m - 1\<rparr> else m, None, w)"
  by (auto simp: updateMenu_def)

lemma updateMenu_down:
  "key \<in> {''down'', ''j''} \<Longrightarrow>
   updateMenu w m (KeyMsg key) =
     (if menuChoice m < int (length menuOptions) - 1
      then m\<lparr>menuChoice := menuChoice m + 1\<rparr> else m, None, w)"
  by (auto simp: updateMenu_def)

lemma updateFileMenu_up:
  "key \<in> {''up'', ''k''} \<Longrightarrow>
   updateFileMenu w m (KeyMsg key) =
     Inr (if fileChoice m > 0 then m\<lparr>fileChoice := fileChoice m - 1\<rparr> else m, None, w)"
  by (auto simp: updateFileMenu_def)

lemma updateFileMenu_down:
  "key \<in> {''down'', ''j''} \<Longrightarrow>
   updateFileMenu w m (KeyMsg key) =
     Inr (if fileChoice m < int (length (fileList m)) - 1
          then m\<lparr>fileChoice := fileChoice m + 1\<rparr> else m, None, w)"
  by (auto simp: updateFileMenu_def)

lemma updateFileMenu_leave:
  "key \<in> {''q'', ''esc''} \<Longrightarrow>
   updateFileMenu w m (KeyMsg key) = Inr (m\<lparr>state := stateMenu\<rparr>, None, w)"
  by (auto simp: updateFileMenu_def)

lemma updateFileMenu_enter:
  "updateFileMenu w m (KeyMsg ''enter'') =
     (case index (fileList m) (fileChoice m) of
        Inl p \<Rightarrow> Inl p
      | Inr file \<Rightarrow>
          if file = ''Back'' then Inr (m\<lparr>state := stateMenu\<rparr>, None, w)
          else Inr (uploadSelected w
                 (m\<lparr>selectedFile := filepath_Join ''./src/internal/data/'' file\<rparr>)))"
  by (simp add: updateFileMenu_def)

lemma updateFileMenu_other:
  "key \<notin> {''up'', ''k'', ''down'', ''j'', ''q'', ''esc'', ''enter''} \<Longrightarrow>
   updateFileMenu w m (KeyMsg key) = Inr (m, None, w)"
  by (simp add: updateFileMenu_def)

subsection \<open>The invariant of the file selector\<close>

lemma refreshCounts_fields:
  "refreshCounts m w = (m', w') \<Longrightarrow>
   state m' = state m \<and> menuChoice m' = menuChoice m \<and> fileList m' = fileList m \<and>
   fileChoice m' = fileChoice m"
  by (auto simp: refreshCounts_def Let_def split: prod.splits)

lemma uploadSelected_state:
  "uploadSelected w m = (m', c, w') \<Longrightarrow> state m' = stateResult"
  by (auto simp: uploadSelected_def failed_def succeeded_def Let_def
           split: sum.splits prod.splits option.splits if_splits)

lemma updateMenu_inv:
  assumes "state m = stateMenu" and "updateMenu w m msg = (m', c, w')"
  shows "selectorInv m'"
proof (cases msg)
  case OtherMsg
  with assms show ?thesis by (simp add: updateMenu_def selectorInv_def)
next
  case (KeyMsg key)
  consider (nav) "key = ''up'' \<or> key = ''k'' \<or> key = ''down'' \<or> key = ''j''"
    | (enter) "key = ''enter''"
    | (quit) "key = ''q'' \<or> key = ''ctrl+c''"
    | (refresh) "key = ''r''"
    | (other) "key \<notin> {''up'', ''k'', ''down'', ''j'', ''enter'', ''q'', ''ctrl+c'', ''r''}"
    by auto
  then show ?thesis
  proof cases
    case nav
    with assms KeyMsg have "state m' = stateMenu"
      by (auto simp: updateMenu_def split: if_splits)
    then show ?thesis by (simp add: selectorInv_def)
  next
    case enter
    with assms KeyMsg show ?thesis
      by (auto simp: updateMenu_def selectorInv_def fileChoiceInRange_def
               split: if_splits sum.splits)
  next
    case quit
    with assms KeyMsg have "m' = m"
      by (auto simp: updateMenu_def split: if_splits)
    with assms show ?thesis by (simp add: selectorInv_def)
  next
    case refresh
    with assms KeyMsg have "refreshCounts m w = (m', w')"
      by (auto simp: updateMenu_def split: prod.splits)
    from refreshCounts_fields[OF this] assms show ?thesis by (simp add: selectorInv_def)
  next
    case other
    with assms KeyMsg have "m' = m"
      by (auto simp: updateMenu_def)
    with assms show ?thesis by (simp add: selectorInv_def)
  qed
qed

lemma updateFileMenu_inv:
  assumes "fileChoiceInRange m" and "updateFileMenu w m msg = Inr (m', c, w')"
  shows "selectorInv m'"
proof (cases msg)
  case OtherMsg
  with assms show ?thesis by (simp add: updateFileMenu_def selectorInv_def)
next
  case (KeyMsg key)
  consider (up) "key \<in> {''up'', ''k''}"
    | (down) "key \<in> {''down'', ''j''}"
    | (leave) "key \<in> {''q'', ''esc''}"
    | (enter) "key = ''enter''"
    | (other) "key \<notin> {''up'', ''k'', ''down'', ''j'', ''q'', ''esc'', ''enter''}"
    by blast
  then show ?thesis
  proof cases
    case up
    from assms(2) show ?thesis
      unfolding KeyMsg updateFileMenu_up[OF up] using assms(1)
      by (auto simp: selectorInv_def fileChoiceInRange_def split: if_splits)
  next
    case down
    from assms(2) show ?thesis
      unfolding KeyMsg updateFileMenu_down[OF down] using assms(1)
      by (auto simp: selectorInv_def fileChoiceInRange_def split: if_splits)
  next
    case leave
    from assms(2) have "state m' = stateMenu"
      unfolding KeyMsg updateFileMenu_leave[OF leave] by auto
    then show ?thesis by (simp add: selectorInv_def)
  next
    case enter
    from assms(2) have "state m' \<noteq> stateFileSelector"
      unfolding KeyMsg enter updateFileMenu_enter
      by (auto split: sum.splits if_splits dest: uploadSelected_state)
    then show ?thesis by (simp add: selectorInv_def)
  next
    case other
    from assms(2) have "m' = m"
      unfolding KeyMsg updateFileMenu_other[OF other] by simp
    with assms show ?thesis by (simp add: selectorInv_def)
  qed
qed

lemma Update_inv:
  assumes "selectorInv m" and "Update w m msg = Inr (m', c, w')"
  shows "selectorInv m'"
proof (cases "state m")
  case stateMenu
  with assms show ?thesis by (auto simp: Update_def dest: updateMenu_inv)
next
  case stateFileSelector
  with assms show ?thesis by (auto simp: Update_def selectorInv_def dest: updateFileMenu_inv)
next
  case stateResult
  with assms have "state m' \<noteq> stateFileSelector"
    by (auto simp: Update_def split: if_splits prod.splits dest!: refreshCounts_fields)
  then show ?thesis by (simp add: selectorInv_def)
qed

lemma reachable_inv: "reachable m \<Longrightarrow> selectorInv m"
proof (induction rule: reachable.induct)
  case (start w m w')
  then have "state m = stateMenu"
    by (auto simp: initialModel_def dest!: refreshCounts_fields)
  then show ?case by (simp add: selectorInv_def)
next
  case (step m w msg m' c w')
  then show ?case by (auto dest: Update_inv)
qed

lemma index_in_range:
  "0 \<le> i \<Longrightarrow> i < int (length xs) \<Longrightarrow> index xs i = Inr (xs ! nat i)"
  by (simp add: index_def)

lemma updateFileMenu_no_panic:
  assumes "fileChoiceInRange m"
  shows "updateFileMenu w m msg \<noteq> Inl p"
proof (cases msg)
  case OtherMsg
  then show ?thesis by (simp add: updateFileMenu_def)
next
  case (KeyMsg key)
  from assms have "index (fileList m) (fileChoice m) = Inr (fileList m ! nat (fileChoice m))"
    by (simp add: fileChoiceInRange_def index_in_range)
  with KeyMsg show ?thesis by (simp add: updateFileMenu_def)
qed

text \<open>
  C10. In every model the program can reach, if the state is the file selector then the
  file list is not empty, its last entry is \<open>Back\<close>, and \<open>fileChoice\<close> is one of its
  positions, so that \<open>fileList[fileChoice]\<close> is in range; and \<open>Update\<close> does not panic on any
  message.
\<close>

theorem fileChoice_in_range:
  assumes "reachable m"
  shows "(state m = stateFileSelector \<longrightarrow>
            fileList m \<noteq> [] \<and> last (fileList m) = ''Back'' \<and>
            0 \<le> fileChoice m \<and> fileChoice m < int (length (fileList m)) \<and>
            index (fileList m) (fileChoice m) = Inr (fileList m ! nat (fileChoice m))) \<and>
         Update w m msg \<noteq> Inl p"
proof -
  have inv: "selectorInv m" using assms by (rule reachable_inv)
  have "Update w m msg \<noteq> Inl p"
  proof (cases "state m")
    case stateFileSelector
    with inv have "fileChoiceInRange m" by (simp add: selectorInv_def)
    from updateFileMenu_no_panic[OF this] stateFileSelector show ?thesis
      by (simp add: Update_def)
  qed (auto simp: Update_def split: prod.splits)
  with inv show ?thesis
    by (auto simp: selectorInv_def fileChoiceInRange_def index_in_range)
qed

lemma lowerExt_equipment: "lowerExt ''equipment.csv'' = ''.csv''"
  by (simp add: lowerExt_def Ext_def lowerByte_def less_eq_char_def)

theorem fileChoice_in_range_witness:
  "reachable afterEnter \<and> state afterEnter = stateFileSelector \<and>
   fileList afterEnter = [''equipment.csv'', ''Back''] \<and> fileChoice afterEnter = 0 \<and>
   index (fileList afterEnter) (fileChoice afterEnter) = Inr ''equipment.csv'' \<and>
   Update oneFileWorld afterEnter (KeyMsg ''enter'') \<noteq> Inl IndexOutOfRange"
proof -
  let ?m0 = "fst (initialModel oneFileWorld)"
  have r0: "reachable ?m0"
    by (rule reachable.start[of oneFileWorld _ "snd (initialModel oneFileWorld)"]) simp
  have "refreshCounts
          \<lparr>state = stateMenu, menuChoice = 0, fileList = [], fileChoice = 0,
           selectedFile = [], resultMsg = NoText, isError = False, counts = []\<rparr> oneFileWorld
        = (?m0, snd (initialModel oneFileWorld))"
    by (simp add: initialModel_def)
  from refreshCounts_fields[OF this]
  have f0: "state ?m0 = stateMenu" "menuChoice ?m0 = 0" by simp_all
  have files: "listDataFiles oneFileWorld = Inr [''equipment.csv'']"
    by (simp add: listDataFiles_def oneFileWorld_def lowerExt_equipment supportedExts_def)
  have "Update oneFileWorld ?m0 (KeyMsg ''enter'') = Inr (afterEnter, None, oneFileWorld)"
    by (simp add: Update_def updateMenu_def f0 files menuOptions_def afterEnter_def)
  with r0 have r1: "reachable afterEnter" by (rule reachable.step)
  have s: "state afterEnter = stateFileSelector"
    "fileList afterEnter = [''equipment.csv'', ''Back'']" "fileChoice afterEnter = 0"
    by (simp_all add: afterEnter_def)
  from fileChoice_in_range[OF r1, of oneFileWorld "KeyMsg ''enter''" IndexOutOfRange] s r1
  show ?thesis by simp
qed

subsection \<open>Navigation\<close>

text \<open>
  C8. In the menu and in the file selector, \<open>up\<close> (or \<open>k\<close>) at index 0 and \<open>down\<close> (or
  \<open>j\<close>) at the last position of the list leave the model, and the world, as they are.
  From an index within the list either key moves the index by one position at most and
  keeps it within the list, changing nothing else: the index does not wrap around.
\<close>

theorem navigation_clamps:
  "(state m = stateMenu \<and> menuChoice m = 0 \<and> key \<in> {''up'', ''k''} \<longrightarrow>
      Update w m (KeyMsg key) = Inr (m, None, w)) \<and>
   (state m = stateMenu \<and> menuChoice m = int (length menuOptions) - 1 \<and>
    key \<in> {''down'', ''j''} \<longrightarrow>
      Update w m (KeyMsg key) = Inr (m, None, w)) \<and>
   (state m = stateFileSelector \<and> fileChoice m = 0 \<and> key \<in> {''up'', ''k''} \<longrightarrow>
      Update w m (KeyMsg key) = Inr (m, None, w)) \<and>
   (state m = stateFileSelector \<and> fileChoice m = int (length (fileList m)) - 1 \<and>
    key \<in> {''down'', ''j''} \<longrightarrow>
      Update w m (KeyMsg key) = Inr (m, None, w)) \<and>
   (state m = stateMenu \<and> key \<in> {''up'', ''k'', ''down'', ''j''} \<and>
    0 \<le> menuChoice m \<and> menuChoice m < int (length menuOptions) \<longrightarrow>
      (\<exists>i. Update w m (KeyMsg key) = Inr (m\<lparr>menuChoice := i\<rparr>, None, w) \<and>
           0 \<le> i \<and> i < int (length menuOptions) \<and> \<bar>i - menuChoice m\<bar> \<le> 1)) \<and>
   (state m = stateFileSelector \<and> key \<in> {''up'', ''k'', ''down'', ''j''} \<and>
    0 \<le> fileChoice m \<and> fileChoice m < int (length (fileList m)) \<longrightarrow>
      (\<exists>i. Update w m (KeyMsg key) = Inr (m\<lparr>fileChoice := i\<rparr>, None, w) \<and>
           0 \<le> i \<and> i < int (length (fileList m)) \<and> \<bar>i - fileChoice m\<bar> \<le> 1))"
proof -
  have menu: "state m = stateMenu \<Longrightarrow>
      Update w m (KeyMsg key) = Inr (updateMenu w m (KeyMsg key))" for key
    by (simp add: Update_def)
  have files: "state m = stateFileSelector \<Longrightarrow>
      Update w m (KeyMsg key) = updateFileMenu w m (KeyMsg key)" for key
    by (simp add: Update_def)
  note up = updateMenu_up[of _ w m] and down = updateMenu_down[of _ w m]
    and fup = updateFileMenu_up[of _ w m] and fdown = updateFileMenu_down[of _ w m]
  have c1: "state m = stateMenu \<and> menuChoice m = 0 \<and> key \<in> {''up'', ''k''} \<longrightarrow>
      Update w m (KeyMsg key) = Inr (m, None, w)"
    using menu up by simp
  have c2: "state m = stateMenu \<and> menuChoice m = int (length menuOptions) - 1 \<and>
      key \<in> {''down'', ''j''} \<longrightarrow> Update w m (KeyMsg key) = Inr (m, None, w)"
    using menu down by simp
  have c3: "state m = stateFileSelector \<and> fileChoice m = 0 \<and> key \<in> {''up'', ''k''} \<longrightarrow>
      Update w m (KeyMsg key) = Inr (m, None, w)"
    using files fup by simp
  have c4: "state m = stateFileSelector \<and> fileChoice m = int (length (fileList m)) - 1 \<and>
      key \<in> {''down'', ''j''} \<longrightarrow> Update w m (KeyMsg key) = Inr (m, None, w)"
    using files fdown by simp
  have c5: "state m = stateMenu \<and> key \<in> {''up'', ''k'', ''down'', ''j''} \<and>
      0 \<le> menuChoice m \<and> menuChoice m < int (length menuOptions) \<longrightarrow>
      (\<exists>i. Update w m (KeyMsg key) = Inr (m\<lparr>menuChoice := i\<rparr>, None, w) \<and>
           0 \<le> i \<and> i < int (length menuOptions) \<and> \<bar>i - menuChoice m\<bar> \<le> 1)"
  proof (intro impI, elim conjE)
    assume s: "state m = stateMenu" and k: "key \<in> {''up'', ''k'', ''down'', ''j''}"
      and lo: "0 \<le> menuChoice m" and hi: "menuChoice m < int (length menuOptions)"
    from k consider "key \<in> {''up'', ''k''}" | "key \<in> {''down'', ''j''}" by blast
    then show "\<exists>i. Update w m (KeyMsg key) = Inr (m\<lparr>menuChoice := i\<rparr>, None, w) \<and>
           0 \<le> i \<and> i < int (length menuOptions) \<and> \<bar>i - menuChoice m\<bar> \<le> 1"
    proof cases
      case 1
      show ?thesis
      proof (cases "menuChoice m > 0")
        case True
        with 1 s lo hi show ?thesis
          by (intro exI[of _ "menuChoice m - 1"]) (simp add: menu up)
      next
        case False
        with 1 s lo hi show ?thesis
          by (intro exI[of _ "menuChoice m"]) (simp add: menu up)
      qed
    next
      case 2
      show ?thesis
      proof (cases "menuChoice m < int (length menuOptions) - 1")
        case True
        with 2 s lo hi show ?thesis
          by (intro exI[of _ "menuChoice m + 1"]) (simp add: menu down)
      next
        case False
        with 2 s lo hi show ?thesis
          by (intro exI[of _ "menuChoice m"]) (simp add: menu down)
      qed
    qed
  qed
  have c6: "state m = stateFileSelector \<and> key \<in> {''up'', ''k'', ''down'', ''j''} \<and>
      0 \<le> fileChoice m \<and> fileChoice m < int (length (fileList m)) \<longrightarrow>
      (\<exists>i. Update w m (KeyMsg key) = Inr (m\<lparr>fileChoice := i\<rparr>, None, w) \<and>
           0 \<le> i \<and> i < int (length (fileList m)) \<and> \<bar>i - fileChoice m\<bar> \<le> 1)"
  proof (intro impI, elim conjE)
    assume s: "state m = stateFileSelector" and k: "key \<in> {''up'', ''k'', ''down'', ''j''}"
      and lo: "0 \<le> fileChoice m" and hi: "fileChoice m < int (length (fileList m))"
    from k consider "key \<in> {''up'', ''k''}" | "key \<in> {''down'', ''j''}" by blast
    then show "\<exists>i. Update w m (KeyMsg key) = Inr (m\<lparr>fileChoice := i\<rparr>, None, w) \<and>
           0 \<le> i \<and> i < int (length (fileList m)) \<and> \<bar>i - fileChoice m\<bar> \<le> 1"
    proof cases
      case 1
      show ?thesis
      proof (cases "fileChoice m > 0")
        case True
        with 1 s lo hi show ?thesis
          by (intro exI[of _ "fileChoice m - 1"]) (simp add: files fup)
      next
        case False
        with 1 s lo hi show ?thesis
          by (intro exI[of _ "fileChoice m"]) (simp add: files fup)
      qed
    next
      case 2
      show ?thesis
      proof (cases "fileChoice m < int (length (fileList m)) - 1")
        case True
        with 2 s lo hi show ?thesis
          by (intro exI[of _ "fileChoice m + 1"]) (simp add: files fdown)
      next
        case False
        with 2 s lo hi show ?thesis
          by (intro exI[of _ "fileChoice m"]) (simp add: files fdown)
      qed
    qed
  qed
  from c1 c2 c3 c4 c5 c6 show ?thesis by (intro conjI)
qed

theorem navigation_clamps_witness:
  "Update oneFileWorld menuModel (KeyMsg ''up'') = Inr (menuModel, None, oneFileWorld) \<and>
   Update oneFileWorld (menuModel\<lparr>menuChoice := 5\<rparr>) (KeyMsg ''down'') =
     Inr (menuModel\<lparr>menuChoice := 5\<rparr>, None, oneFileWorld) \<and>
   Update oneFileWorld selectorModel (KeyMsg ''k'') = Inr (selectorModel, None, oneFileWorld) \<and>
   Update oneFileWorld (selectorModel\<lparr>fileChoice := 1\<rparr>) (KeyMsg ''j'') =
     Inr (selectorModel\<lparr>fileChoice := 1\<rparr>, None, oneFileWorld) \<and>
   (\<exists>i. Update oneFileWorld (menuModel\<lparr>menuChoice := 2\<rparr>) (KeyMsg ''j'') =
          Inr (menuModel\<lparr>menuChoice := i\<rparr>, None, oneFileWorld) \<and> 0 \<le> i \<and> i < 6) \<and>
   (\<exists>i. Update oneFileWorld selectorModel (KeyMsg ''down'') =
          Inr (selectorModel\<lparr>fileChoice := i\<rparr>, None, oneFileWorld) \<and> 0 \<le> i \<and> i < 2)"
proof -
  have h1: "state menuModel = stateMenu \<and> menuChoice menuModel = 0 \<and>
            ''up'' \<in> {''up'', ''k''}"
    by (simp add: menuModel_def)
  have h2: "state (menuModel\<lparr>menuChoice := 5\<rparr>) = stateMenu \<and>
            menuChoice (menuModel\<lparr>menuChoice := 5\<rparr>) = int (length menuOptions) - 1 \<and>
            ''down'' \<in> {''down'', ''j''}"
    by (simp add: menuModel_def menuOptions_def)
  have h3: "state selectorModel = stateFileSelector \<and> fileChoice selectorModel = 0 \<and>
            ''k'' \<in> {''up'', ''k''}"
    by (simp add: selectorModel_def menuModel_def)
  have h4: "state (selectorModel\<lparr>fileChoice := 1\<rparr>) = stateFileSelector \<and>
            fileChoice (selectorModel\<lparr>fileChoice := 1\<rparr>) =
              int (length (fileList (selectorModel\<lparr>fileChoice := 1\<rparr>))) - 1 \<and>
            ''j'' \<in> {''down'', ''j''}"
    by (simp add: selectorModel_def menuModel_def)
  have h5: "state (menuModel\<lparr>menuChoice := 2\<rparr>) = stateMenu \<and>
            ''j'' \<in> {''up'', ''k'', ''down'', ''j''} \<and>
            0 \<le> menuChoice (menuModel\<lparr>menuChoice := 2\<rparr>) \<and>
            menuChoice (menuModel\<lparr>menuChoice := 2\<rparr>) < int (length menuOptions)"
    by (simp add: menuModel_def menuOptions_def)
  have h6: "state selectorModel = stateFileSelector \<and>
            ''down'' \<in> {''up'', ''k'', ''down'', ''j''} \<and>
            0 \<le> fileChoice selectorModel \<and>
            fileChoice selectorModel < int (length (fileList selectorModel))"
    by (simp add: selectorModel_def menuModel_def)
  have l1: "int (length menuOptions) = 6" by (simp add: menuOptions_def)
  have l2: "int (length (fileList selectorModel)) = 2"
    by (simp add: selectorModel_def menuModel_def)
  have g1: "Update oneFileWorld menuModel (KeyMsg ''up'') = Inr (menuModel, None, oneFileWorld)"
    by (rule navigation_clamps[of menuModel "''up''" oneFileWorld,
          THEN conjunct1, THEN mp, OF h1])
  have g2: "Update oneFileWorld (menuModel\<lparr>menuChoice := 5\<rparr>) (KeyMsg ''down'') =
     Inr (menuModel\<lparr>menuChoice := 5\<rparr>, None, oneFileWorld)"
    by (rule navigation_clamps[of "menuModel\<lparr>menuChoice := 5\<rparr>" "''down''" oneFileWorld,
          THEN conjunct2, THEN conjunct1, THEN mp, OF h2])
  have g3: "Update oneFileWorld selectorModel (KeyMsg ''k'') =
     Inr (selectorModel, None, oneFileWorld)"
    by (rule navigation_clamps[of selectorModel "''k''" oneFileWorld,
          THEN conjunct2, THEN conjunct2, THEN conjunct1, THEN mp, OF h3])
  have g4: "Update oneFileWorld (selectorModel\<lparr>fileChoice := 1\<rparr>) (KeyMsg ''j'') =
     Inr (selectorModel\<lparr>fileChoice := 1\<rparr>, None, oneFileWorld)"
    by (rule navigation_clamps[of "selectorModel\<lparr>fileChoice := 1\<rparr>" "''j''" oneFileWorld,
          THEN conjunct2, THEN conjunct2, THEN conjunct2, THEN conjunct1, THEN mp, OF h4])
  obtain i where i: "Update oneFileWorld (menuModel\<lparr>menuChoice := 2\<rparr>) (KeyMsg ''j'') =
      Inr (menuModel\<lparr>menuChoice := 2, menuChoice := i\<rparr>, None, oneFileWorld)"
      "0 \<le> i" "i < int (length menuOptions)"
    using navigation_clamps[of "menuModel\<lparr>menuChoice := 2\<rparr>" "''j''" oneFileWorld,
          THEN conjunct2, THEN conjunct2, THEN conjunct2, THEN conjunct2, THEN conjunct1,
          THEN mp, OF h5]
    by (elim exE conjE)
  have g5: "\<exists>i. Update oneFileWorld (menuModel\<lparr>menuChoice := 2\<rparr>) (KeyMsg ''j'') =
          Inr (menuModel\<lparr>menuChoice := i\<rparr>, None, oneFileWorld) \<and> 0 \<le> i \<and> i < 6"
    using i l1 by (intro exI[of _ i]) simp
  obtain j where j: "Update oneFileWorld selectorModel (KeyMsg ''down'') =
      Inr (selectorModel\<lparr>fileChoice := j\<rparr>, None, oneFileWorld)"
      "0 \<le> j" "j < int (length (fileList selectorModel))"
    using navigation_clamps[of selectorModel "''down''" oneFileWorld,
          THEN conjunct2, THEN conjunct2, THEN conjunct2, THEN conjunct2, THEN conjunct2,
          THEN mp, OF h6]
    by (elim exE conjE)
  have g6: "\<exists>i. Update oneFileWorld selectorModel (KeyMsg ''down'') =
          Inr (selectorModel\<lparr>fileChoice := i\<rparr>, None, oneFileWorld) \<and> 0 \<le> i \<and> i < 2"
    using j l2 by (intro exI[of _ j]) simp
  from g1 g2 g3 g4 g5 g6 show ?thesis by (intro conjI)
qed

end
